theory Spec2Isabelle
  imports Complex_Main "HOL-Library.AList" "HOL-Library.Multiset"
begin

text \<open>
  The handlers of the DailyFlow \<open>App\<close> component that keep the task list and the device
  registry: saving a task, drag-and-drop reordering, the registry's add, rename and
  remove, and the export and import of backups. Each handler is a function from the
  component's state to its next state.
\<close>

section \<open>Run-time values\<close>

text \<open>
  A JavaScript number: a finite value (the real it denotes; the two zeros are one value
  here), or one of the three values that are not finite. \<open>JSON.parse\<close> returns
  \<open>Infinity\<close> for a literal beyond the double range, such as \<open>1e999\<close>.
\<close>

datatype number = Finite real | Infinity | NegInfinity | NaN

text \<open>
  The TypeScript annotations \<open>Task[]\<close> and \<open>string[]\<close> are erased at run time, and the
  import handler stores whatever \<open>JSON.parse\<close> returned. The two stored lists therefore
  hold JSON values. An object is an association list in property order, read with
  \<open>map_of\<close>. A string is the list of its UTF-8 bytes.
\<close>

datatype json =
    JNull
  | JBool bool
  | JNum number
  | JStr string
  | JArr "json list"
  | JObj "(string \<times> json) list"

text \<open>The result of reading a property: \<open>None\<close> is JavaScript's \<open>undefined\<close>.\<close>

type_synonym jsval = "json option"

datatype exn = TypeError | SyntaxError

text \<open>
  \<open>v.k\<close> for the keys the program reads (\<open>id\<close>, \<open>name\<close>, \<open>checkInTime\<close>, \<open>tasks\<close>,
  \<open>devices\<close>): reading from \<open>null\<close> throws, an object gives its own property, and
  every other value (array, string, number, boolean) has no property of these names.
\<close>

fun get_prop :: "json \<Rightarrow> string \<Rightarrow> exn + jsval" where
  "get_prop JNull k = Inl TypeError"
| "get_prop (JObj kvs) k = Inr (map_of kvs k)"
| "get_prop (JBool b) k = Inr None"
| "get_prop (JNum x) k = Inr None"
| "get_prop (JStr s) k = Inr None"
| "get_prop (JArr xs) k = Inr None"

text \<open>JavaScript truthiness, as used by \<open>&&\<close>, \<open>||\<close> and \<open>if\<close>.\<close>

fun truthy :: "jsval \<Rightarrow> bool" where
  "truthy None = False"
| "truthy (Some JNull) = False"
| "truthy (Some (JBool b)) = b"
| "truthy (Some (JNum n)) = (case n of Finite x \<Rightarrow> x \<noteq> 0 | Infinity \<Rightarrow> True | NegInfinity \<Rightarrow> True | NaN \<Rightarrow> False)"
| "truthy (Some (JStr s)) = (s \<noteq> [])"
| "truthy (Some (JArr xs)) = True"
| "truthy (Some (JObj kvs)) = True"

text \<open>\<open>Array.isArray\<close>.\<close>

fun isArray :: "jsval \<Rightarrow> bool" where
  "isArray (Some (JArr xs)) = True"
| "isArray v = False"

text \<open>
  The code points \<open>String.prototype.trim\<close> removes, each as its UTF-8 bytes: the
  ECMAScript white space (U+0009, U+000B, U+000C, U+0020, U+00A0, U+FEFF and the other
  space separators U+1680, U+2000 to U+200A, U+202F, U+205F, U+3000) and the line
  terminators (U+000A, U+000D, U+2028, U+2029).
\<close>

definition white_space :: "string list" where
  "white_space =
     [[CHR 0x09], [CHR 0x0A], [CHR 0x0B], [CHR 0x0C], [CHR 0x0D], [CHR 0x20],
      [CHR 0xC2, CHR 0xA0],
      [CHR 0xE1, CHR 0x9A, CHR 0x80],
      [CHR 0xE2, CHR 0x80, CHR 0x80], [CHR 0xE2, CHR 0x80, CHR 0x81],
      [CHR 0xE2, CHR 0x80, CHR 0x82], [CHR 0xE2, CHR 0x80, CHR 0x83],
      [CHR 0xE2, CHR 0x80, CHR 0x84], [CHR 0xE2, CHR 0x80, CHR 0x85],
      [CHR 0xE2, CHR 0x80, CHR 0x86], [CHR 0xE2, CHR 0x80, CHR 0x87],
      [CHR 0xE2, CHR 0x80, CHR 0x88], [CHR 0xE2, CHR 0x80, CHR 0x89],
      [CHR 0xE2, CHR 0x80, CHR 0x8A],
      [CHR 0xE2, CHR 0x80, CHR 0xA8], [CHR 0xE2, CHR 0x80, CHR 0xA9],
      [CHR 0xE2, CHR 0x80, CHR 0xAF],
      [CHR 0xE2, CHR 0x81, CHR 0x9F],
      [CHR 0xE3, CHR 0x80, CHR 0x80],
      [CHR 0xEF, CHR 0xBB, CHR 0xBF]]"

text \<open>The first of the byte sequences \<open>ws\<close> that the text starts with, if any.\<close>

definition leading :: "string list \<Rightarrow> string \<Rightarrow> string option" where
  "leading ws s = find (\<lambda>w. take (length w) s = w) ws"

text \<open>
  Removing leading sequences of \<open>ws\<close> until none is left. Each round removes at least one
  byte, so as many rounds as the text has bytes are enough.
\<close>

fun strip :: "nat \<Rightarrow> string list \<Rightarrow> string \<Rightarrow> string" where
  "strip 0 ws s = s"
| "strip (Suc n) ws s =
     (case leading ws s of None \<Rightarrow> s | Some w \<Rightarrow> strip n ws (drop (length w) s))"

definition trimStart :: "string \<Rightarrow> string" where
  "trimStart s = strip (length s) white_space s"

text \<open>
  At the end of a UTF-8 text a white-space sequence is always a whole character, so the
  end is trimmed on the reversed bytes.
\<close>

definition trimEnd :: "string \<Rightarrow> string" where
  "trimEnd s = rev (strip (length s) (map rev white_space) (rev s))"

text \<open>\<open>String.prototype.trim\<close>.\<close>

definition trim :: "string \<Rightarrow> string" where
  "trim s = trimEnd (trimStart s)"

text \<open>
  \<open>Array.prototype.findIndex\<close> with a callback that may throw; \<open>None\<close> is the \<open>-1\<close> the
  source tests for.
\<close>

fun findIndex :: "('a \<Rightarrow> exn + bool) \<Rightarrow> 'a list \<Rightarrow> exn + nat option" where
  "findIndex p [] = Inr None"
| "findIndex p (x # xs) =
     (case p x of
        Inl e \<Rightarrow> Inl e
      | Inr b \<Rightarrow>
          if b then Inr (Some 0)
          else (case findIndex p xs of
                  Inl e \<Rightarrow> Inl e
                | Inr None \<Rightarrow> Inr None
                | Inr (Some i) \<Rightarrow> Inr (Some (Suc i))))"

text \<open>\<open>Array.prototype.every\<close>: stops at the first element that fails or throws.\<close>

fun every :: "('a \<Rightarrow> exn + bool) \<Rightarrow> 'a list \<Rightarrow> exn + bool" where
  "every p [] = Inr True"
| "every p (x # xs) =
     (case p x of
        Inl e \<Rightarrow> Inl e
      | Inr b \<Rightarrow> if b then every p xs else Inr False)"

text \<open>
  \<open>xs.splice(start, deleteCount, ...items)\<close> for a non-negative \<open>start\<close>: the removed
  elements and the array afterwards. \<open>take\<close> and \<open>drop\<close> clamp as \<open>splice\<close> does.
\<close>

definition splice :: "'a list \<Rightarrow> nat \<Rightarrow> nat \<Rightarrow> 'a list \<Rightarrow> 'a list \<times> 'a list" where
  "splice xs start deleteCount items =
     (take deleteCount (drop start xs),
      take start xs @ items @ drop (start + deleteCount) xs)"

section \<open>The data model of \<open>types.ts\<close>\<close>

datatype TaskStatus = PENDING | COMPLETED | SKIPPED

fun TaskStatus_value :: "TaskStatus \<Rightarrow> string" where
  "TaskStatus_value PENDING = ''PENDING''"
| "TaskStatus_value COMPLETED = ''COMPLETED''"
| "TaskStatus_value SKIPPED = ''SKIPPED''"

text \<open>\<open>Omit<Task, 'id' | 'createdAt'>\<close>, the value the task form submits.\<close>

record TaskData =
  name :: string
  description :: string
  checkInTime :: string
  device :: string
  appOrUrl :: string
  status :: TaskStatus

record Task = TaskData +
  id_task :: string
  createdAt :: number

text \<open>The own properties of the object literal built by \<open>TaskForm.handleSubmit\<close>, in order.\<close>

definition TaskData_props :: "TaskData \<Rightarrow> (string \<times> json) list" where
  "TaskData_props d =
     [(''name'', JStr (name d)),
      (''description'', JStr (description d)),
      (''checkInTime'', JStr (checkInTime d)),
      (''device'', JStr (device d)),
      (''appOrUrl'', JStr (appOrUrl d)),
      (''status'', JStr (TaskStatus_value (status d)))]"

text \<open>
  \<open>DEFAULT_DEVICES\<close>: four two-character Chinese labels (phone, computer, tablet, other),
  here as their UTF-8 bytes.
\<close>

definition DEFAULT_DEVICES :: "json list" where
  "DEFAULT_DEVICES =
     [JStr [CHR 0xE6, CHR 0x89, CHR 0x8B, CHR 0xE6, CHR 0x9C, CHR 0xBA],
      JStr [CHR 0xE7, CHR 0x94, CHR 0xB5, CHR 0xE8, CHR 0x84, CHR 0x91],
      JStr [CHR 0xE5, CHR 0xB9, CHR 0xB3, CHR 0xE6, CHR 0x9D, CHR 0xBF],
      JStr [CHR 0xE5, CHR 0x85, CHR 0xB6, CHR 0xE4, CHR 0xBB, CHR 0x96]]"

section \<open>The state of \<open>App\<close>\<close>

text \<open>
  The modal's texts are Chinese string literals in the source; each literal is a
  constructor here, named by its meaning.
\<close>

datatype modal_type = Confirm | Alert

datatype title =
    T_none
  | T_delete_device
  | T_cannot_save
  | T_import_failed
  | T_restore_data

datatype message =
    M_none
  | M_confirm_delete_device jsval
  | M_device_name_empty_or_exists
  | M_format_unrecognized
  | M_task_data_malformed
  | M_no_valid_task_data
  | M_json_format_error
  | M_confirm_restore

text \<open>
  The closures passed to \<open>showConfirm\<close>, with what they capture:
  \<open>handleDeleteDevice\<close> captures \<open>devices\<close> and \<open>index\<close>, \<open>handleImportConfirm\<close>
  captures \<open>importedTasks\<close> and \<open>importedDevices\<close> (\<open>None\<close> is \<open>null\<close>).
\<close>

datatype yes_action =
    DeleteDevice "json list" nat
  | RestoreData "json list" "json list option"

text \<open>
  \<open>modalState.onConfirm\<close>: initially \<open>() => {}\<close>, \<open>closeModal\<close> for an alert, and
  \<open>() => { onYes(); closeModal(); }\<close> for a confirmation.
\<close>

datatype callback = Nothing | CloseModal | Yes_then_close yes_action

record modal =
  isOpen :: bool
  type :: modal_type
  title :: title
  message :: message
  onConfirm :: callback

text \<open>
  The \<open>useState\<close> cells the handlers below read or write. The text fields hold what the
  user typed; \<open>draggedTaskId\<close> and \<open>editingTask\<close> have their declared types.
\<close>

record app_state =
  tasks :: "json list"
  devices :: "json list"
  isFormOpen :: bool
  editingTask :: "Task option"
  isSettingsOpen :: bool
  newDevice :: string
  editingDeviceIndex :: "nat option"
  editingDeviceValue :: string
  importText :: string
  draggedTaskId :: "string option"
  dragOverTaskId :: "string option"
  modalState :: modal

text \<open>
  The state after an event handler that may throw. \<open>handleDrop\<close> can throw only in its
  two \<open>findIndex\<close> calls, before it calls any setter, so a drop that throws leaves every
  cell as it was.
\<close>

fun after :: "app_state \<Rightarrow> exn + app_state \<Rightarrow> app_state" where
  "after st (Inl e) = st"
| "after st (Inr st') = st'"

subsection \<open>Modal helpers\<close>

definition closeModal :: "app_state \<Rightarrow> app_state" where
  "closeModal st = st\<lparr>modalState := (modalState st)\<lparr>isOpen := False\<rparr>\<rparr>"

definition showAlert :: "title \<Rightarrow> message \<Rightarrow> app_state \<Rightarrow> app_state" where
  "showAlert t m st =
     st\<lparr>modalState :=
          \<lparr>isOpen = True, type = Alert, title = t, message = m, onConfirm = CloseModal\<rparr>\<rparr>"

definition showConfirm :: "title \<Rightarrow> message \<Rightarrow> yes_action \<Rightarrow> app_state \<Rightarrow> app_state" where
  "showConfirm t m onYes st =
     st\<lparr>modalState :=
          \<lparr>isOpen = True, type = Confirm, title = t, message = m,
           onConfirm = Yes_then_close onYes\<rparr>\<rparr>"

section \<open>Task handlers\<close>

text \<open>
  The own properties a spread \<open>{...t}\<close> copies from an object. Null, numbers and booleans
  have none; arrays and strings (whose own properties are their indices) never reach the
  spread below, because they have no \<open>id\<close>.
\<close>

fun own_props :: "json \<Rightarrow> (string \<times> json) list" where
  "own_props (JObj kvs) = kvs"
| "own_props v = []"

text \<open>
  Writing properties into an object in order: an existing key keeps its place and gets
  the new value, a new key goes to the end.
\<close>

definition obj_assign :: "(string \<times> json) list \<Rightarrow> (string \<times> json) list \<Rightarrow> (string \<times> json) list" where
  "obj_assign target source = foldl (\<lambda>acc kv. AList.update (fst kv) (snd kv) acc) target source"

text \<open>\<open>Array.prototype.map\<close> with a callback that may throw.\<close>

fun map_exn :: "('a \<Rightarrow> exn + 'b) \<Rightarrow> 'a list \<Rightarrow> exn + 'b list" where
  "map_exn f [] = Inr []"
| "map_exn f (x # xs) =
     (case f x of
        Inl e \<Rightarrow> Inl e
      | Inr y \<Rightarrow> (case map_exn f xs of Inl e \<Rightarrow> Inl e | Inr ys \<Rightarrow> Inr (y # ys)))"

text \<open>\<open>t.id === s\<close> for a string \<open>s\<close>.\<close>

definition id_is :: "string \<Rightarrow> json \<Rightarrow> exn + bool" where
  "id_is s t = (case get_prop t ''id'' of Inl e \<Rightarrow> Inl e | Inr v \<Rightarrow> Inr (v = Some (JStr s)))"

text \<open>The callback of \<open>prev.map\<close> in \<open>handleSaveTask\<close>: \<open>{ ...t, ...taskData }\<close> or \<open>t\<close>.\<close>

definition save_update :: "Task \<Rightarrow> TaskData \<Rightarrow> json \<Rightarrow> exn + json" where
  "save_update et taskData t =
     (case id_is (id_task et) t of
        Inl e \<Rightarrow> Inl e
      | Inr b \<Rightarrow>
          Inr (if b then JObj (obj_assign (own_props t) (TaskData_props taskData)) else t))"

text \<open>
  \<open>handleSaveTask\<close>. The results of \<open>crypto.randomUUID()\<close> and \<open>Date.now()\<close> are the
  arguments \<open>uuid\<close> and \<open>now\<close>. The new list is computed by the updater passed to
  \<open>setTasks\<close>; when its callback throws there is no next state, which is the \<open>Inl\<close> result.
\<close>

definition handleSaveTask :: "app_state \<Rightarrow> TaskData \<Rightarrow> string \<Rightarrow> real \<Rightarrow> exn + app_state" where
  "handleSaveTask st taskData uuid now =
     (case editingTask st of
        Some et \<Rightarrow>
          (case map_exn (save_update et taskData) (tasks st) of
             Inl e \<Rightarrow> Inl e
           | Inr ts \<Rightarrow> Inr (st\<lparr>tasks := ts, isFormOpen := False, editingTask := None\<rparr>))
      | None \<Rightarrow>
          (let newTask =
                 JObj (obj_assign (TaskData_props taskData)
                         [(''id'', JStr uuid), (''createdAt'', JNum (Finite now))])
           in Inr (st\<lparr>tasks := tasks st @ [newTask], isFormOpen := False,
                        editingTask := None\<rparr>)))"

subsection \<open>Drag and drop\<close>

definition handleDragStart :: "app_state \<Rightarrow> string \<Rightarrow> app_state" where
  "handleDragStart st ident = st\<lparr>draggedTaskId := Some ident\<rparr>"

definition handleDragEnter :: "app_state \<Rightarrow> string \<Rightarrow> app_state" where
  "handleDragEnter st ident =
     (case draggedTaskId st of
        None \<Rightarrow> st
      | Some d \<Rightarrow> if d \<noteq> [] \<and> d \<noteq> ident then st\<lparr>dragOverTaskId := Some ident\<rparr> else st)"

definition handleDragEnd :: "app_state \<Rightarrow> app_state" where
  "handleDragEnd st = st\<lparr>draggedTaskId := None, dragOverTaskId := None\<rparr>"

text \<open>
  The body of \<open>if (fromIndex !== -1 && toIndex !== -1)\<close>: the two \<open>splice\<close> calls.
  \<open>toIndex\<close> was computed before the removal. The empty case of \<open>removed\<close> does not
  occur for an index that \<open>findIndex\<close> returned.
\<close>

definition move_item :: "'a list \<Rightarrow> nat \<Rightarrow> nat \<Rightarrow> 'a list" where
  "move_item copy fromIndex toIndex =
     (case splice copy fromIndex 1 [] of
        (removed, copy1) \<Rightarrow>
          (case removed of
             [] \<Rightarrow> copy1
           | movedItem # rest \<Rightarrow> snd (splice copy1 toIndex 0 [movedItem])))"

definition handleDrop :: "app_state \<Rightarrow> string \<Rightarrow> exn + app_state" where
  "handleDrop st targetId =
     (case draggedTaskId st of
        None \<Rightarrow> Inr (st\<lparr>draggedTaskId := None, dragOverTaskId := None\<rparr>)
      | Some d \<Rightarrow>
          if d \<noteq> [] \<and> d \<noteq> targetId then
            (case findIndex (id_is d) (tasks st) of
               Inl e \<Rightarrow> Inl e
             | Inr fromIndex \<Rightarrow>
                 (case findIndex (id_is targetId) (tasks st) of
                    Inl e \<Rightarrow> Inl e
                  | Inr toIndex \<Rightarrow>
                      (case (fromIndex, toIndex) of
                         (Some i, Some j) \<Rightarrow>
                           Inr (st\<lparr>tasks := move_item (tasks st) i j,
                                   draggedTaskId := None, dragOverTaskId := None\<rparr>)
                       | _ \<Rightarrow> Inr (st\<lparr>draggedTaskId := None, dragOverTaskId := None\<rparr>))))
          else Inr (st\<lparr>draggedTaskId := None, dragOverTaskId := None\<rparr>))"

section \<open>Device handlers\<close>

text \<open>
  The initialiser of the \<open>devices\<close> cell. \<open>saved\<close> is the result of
  \<open>localStorage.getItem\<close> (\<open>None\<close> is \<open>null\<close>) and \<open>parse\<close> stands for \<open>JSON.parse\<close>, a
  function of the platform. The value is what \<open>useState\<close> receives.
\<close>

definition initial_devices :: "(string \<Rightarrow> exn + json) \<Rightarrow> string option \<Rightarrow> json" where
  "initial_devices parse saved =
     (case saved of
        None \<Rightarrow> JArr DEFAULT_DEVICES
      | Some text \<Rightarrow>
          if text = [] then JArr DEFAULT_DEVICES
          else (case parse text of Inl e \<Rightarrow> JArr DEFAULT_DEVICES | Inr v \<Rightarrow> v))"

definition handleAddDevice :: "app_state \<Rightarrow> app_state" where
  "handleAddDevice st =
     (if trim (newDevice st) \<noteq> [] \<and> JStr (trim (newDevice st)) \<notin> set (devices st)
      then st\<lparr>devices := devices st @ [JStr (trim (newDevice st))], newDevice := []\<rparr>
      else st)"

text \<open>\<open>devices[index]\<close>: \<open>undefined\<close> outside the array.\<close>

definition at_index :: "'a list \<Rightarrow> nat \<Rightarrow> 'a option" where
  "at_index xs i = (if i < length xs then Some (xs ! i) else None)"

definition handleDeleteDevice :: "app_state \<Rightarrow> nat \<Rightarrow> app_state" where
  "handleDeleteDevice st index =
     showConfirm T_delete_device (M_confirm_delete_device (at_index (devices st) index))
       (DeleteDevice (devices st) index) st"

text \<open>\<open>devices.filter((_, i) => i !== index)\<close>.\<close>

definition filter_index :: "'a list \<Rightarrow> nat \<Rightarrow> 'a list" where
  "filter_index xs index = map snd (filter (\<lambda>p. fst p \<noteq> index) (enumerate 0 xs))"

text \<open>\<open>devices.some((d, i) => i !== index && d === label)\<close> for a string \<open>label\<close>.\<close>

definition some_other :: "json list \<Rightarrow> nat \<Rightarrow> string \<Rightarrow> bool" where
  "some_other xs index label =
     list_ex (\<lambda>p. fst p \<noteq> index \<and> snd p = JStr label) (enumerate 0 xs)"

text \<open>
  \<open>newDevices[index] = v\<close>. An index past the end makes JavaScript extend the array with
  holes, which are written to storage as \<open>null\<close>; the edit button only passes indices of
  rendered entries.
\<close>

definition array_set :: "json list \<Rightarrow> nat \<Rightarrow> json \<Rightarrow> json list" where
  "array_set xs i v =
     (if i < length xs then xs[i := v] else xs @ replicate (i - length xs) JNull @ [v])"

definition saveEditingDevice :: "app_state \<Rightarrow> nat \<Rightarrow> app_state" where
  "saveEditingDevice st index =
     (if trim (editingDeviceValue st) \<noteq> []
         \<and> \<not> some_other (devices st) index (trim (editingDeviceValue st))
      then st\<lparr>devices := array_set (devices st) index (JStr (trim (editingDeviceValue st))),
              editingDeviceIndex := None\<rparr>
      else if at_index (devices st) index = Some (JStr (trim (editingDeviceValue st)))
      then st\<lparr>editingDeviceIndex := None\<rparr>
      else showAlert T_cannot_save M_device_name_empty_or_exists st)"

section \<open>Export and import\<close>

text \<open>
  \<open>handleExport\<close>: the text of the downloaded file. \<open>stringify\<close> stands for
  \<open>JSON.stringify(x, null, 2)\<close>.
\<close>

definition backupData :: "app_state \<Rightarrow> json" where
  "backupData st =
     JObj [(''tasks'', JArr (tasks st)), (''devices'', JArr (devices st)), (''version'', JNum (Finite 1))]"

definition handleExport :: "(json \<Rightarrow> string) \<Rightarrow> app_state \<Rightarrow> string" where
  "handleExport stringify st = stringify (backupData st)"

text \<open>\<open>handleFileChange\<close>: when the file has been read, its content is the import text.\<close>

definition handleFileChange :: "app_state \<Rightarrow> string \<Rightarrow> app_state" where
  "handleFileChange st content = st\<lparr>importText := content\<rparr>"

text \<open>The callback of \<open>importedTasks.every\<close>: \<open>t.id && t.name && t.checkInTime\<close>.\<close>

definition task_has_fields :: "json \<Rightarrow> exn + bool" where
  "task_has_fields t =
     (case get_prop t ''id'' of
        Inl e \<Rightarrow> Inl e
      | Inr a \<Rightarrow>
          if \<not> truthy a then Inr False
          else (case get_prop t ''name'' of
                  Inl e \<Rightarrow> Inl e
                | Inr b \<Rightarrow>
                    if \<not> truthy b then Inr False
                    else (case get_prop t ''checkInTime'' of
                            Inl e \<Rightarrow> Inl e
                          | Inr c \<Rightarrow> Inr (truthy c))))"

text \<open>
  \<open>v.length === 0\<close> for a truthy \<open>v\<close>: an array or a string without elements, or an
  object whose \<open>length\<close> property is the number zero.
\<close>

fun length_is_zero :: "jsval \<Rightarrow> bool" where
  "length_is_zero (Some (JArr xs)) = (xs = [])"
| "length_is_zero (Some (JStr s)) = (s = [])"
| "length_is_zero (Some (JObj kvs)) = (map_of kvs ''length'' = Some (JNum (Finite 0)))"
| "length_is_zero v = False"

text \<open>\<open>data.tasks && data.tasks.length === 0\<close>.\<close>

definition tasks_given_empty :: "json \<Rightarrow> exn + bool" where
  "tasks_given_empty data =
     (case get_prop data ''tasks'' of
        Inl e \<Rightarrow> Inl e
      | Inr v \<Rightarrow> Inr (truthy v \<and> length_is_zero v))"

text \<open>The second half of the \<open>try\<close> block, from \<open>const isValid\<close> on.\<close>

definition import_validate :: "json list \<Rightarrow> json list option \<Rightarrow> app_state \<Rightarrow> exn + app_state" where
  "import_validate importedTasks importedDevices st =
     (case every task_has_fields importedTasks of
        Inl e \<Rightarrow> Inl e
      | Inr isValid \<Rightarrow>
          if isValid
          then Inr (showConfirm T_restore_data M_confirm_restore
                      (RestoreData importedTasks importedDevices) st)
          else Inr (showAlert T_import_failed M_task_data_malformed st))"

text \<open>
  \<open>if (importedTasks.length > 0 || (data.tasks && data.tasks.length === 0))\<close> and its two
  branches.
\<close>

definition import_check :: "json \<Rightarrow> json list \<Rightarrow> json list option \<Rightarrow> app_state \<Rightarrow> exn + app_state" where
  "import_check data importedTasks importedDevices st =
     (if importedTasks \<noteq> [] then import_validate importedTasks importedDevices st
      else (case tasks_given_empty data of
              Inl e \<Rightarrow> Inl e
            | Inr b \<Rightarrow>
                if b then import_validate importedTasks importedDevices st
                else Inr (showAlert T_import_failed M_no_valid_task_data st)))"

text \<open>
  The \<open>try\<close> block after \<open>JSON.parse\<close>. The patterns \<open>Some (JArr xs)\<close> stand for
  \<open>v && Array.isArray(v)\<close>.
\<close>

definition import_try :: "json \<Rightarrow> app_state \<Rightarrow> exn + app_state" where
  "import_try data st =
     (case data of
        JArr xs \<Rightarrow> import_check data xs None st
      | _ \<Rightarrow>
          (case get_prop data ''tasks'' of
             Inl e \<Rightarrow> Inl e
           | Inr (Some (JArr ts)) \<Rightarrow>
               (case get_prop data ''devices'' of
                  Inl e \<Rightarrow> Inl e
                | Inr (Some (JArr ds)) \<Rightarrow> import_check data ts (Some ds) st
                | Inr _ \<Rightarrow> import_check data ts None st)
           | Inr _ \<Rightarrow> Inr (showAlert T_import_failed M_format_unrecognized st)))"

text \<open>
  \<open>handleImportConfirm\<close>. \<open>parse\<close> stands for \<open>JSON.parse\<close>; the \<open>catch\<close> clause shows the
  same alert for its \<open>SyntaxError\<close> and for a \<open>TypeError\<close> of the block.
\<close>

definition handleImportConfirm :: "(string \<Rightarrow> exn + json) \<Rightarrow> app_state \<Rightarrow> app_state" where
  "handleImportConfirm parse st =
     (if trim (importText st) = [] then st
      else (case parse (importText st) of
              Inl e \<Rightarrow> showAlert T_import_failed M_json_format_error st
            | Inr data \<Rightarrow>
                (case import_try data st of
                   Inl e \<Rightarrow> showAlert T_import_failed M_json_format_error st
                 | Inr st' \<Rightarrow> st')))"

subsection \<open>Pressing the modal's buttons\<close>

text \<open>
  What \<open>onYes()\<close> does. The success alert that the import schedules with \<open>setTimeout\<close>
  is a later event and changes the modal only.
\<close>

fun run_yes :: "yes_action \<Rightarrow> app_state \<Rightarrow> app_state" where
  "run_yes (DeleteDevice ds index) st = st\<lparr>devices := filter_index ds index\<rparr>"
| "run_yes (RestoreData importedTasks importedDevices) st =
     (case importedDevices of
        None \<Rightarrow> st\<lparr>tasks := importedTasks, isSettingsOpen := False, importText := []\<rparr>
      | Some ds \<Rightarrow>
          st\<lparr>tasks := importedTasks, devices := ds, isSettingsOpen := False,
             importText := []\<rparr>)"

text \<open>The confirm button calls \<open>modalState.onConfirm\<close>; the cancel button calls \<open>closeModal\<close>.\<close>

definition modal_confirm :: "app_state \<Rightarrow> app_state" where
  "modal_confirm st =
     (case onConfirm (modalState st) of
        Nothing \<Rightarrow> st
      | CloseModal \<Rightarrow> closeModal st
      | Yes_then_close a \<Rightarrow> closeModal (run_yes a st))"

definition modal_cancel :: "app_state \<Rightarrow> app_state" where
  "modal_cancel st = closeModal st"

section \<open>Whole states and sequences of registry operations\<close>

text \<open>The initial values of the cells, for given stored task and device lists.\<close>

definition initial_state :: "json list \<Rightarrow> json list \<Rightarrow> app_state" where
  "initial_state ts ds =
     \<lparr>tasks = ts, devices = ds, isFormOpen = False, editingTask = None,
      isSettingsOpen = False, newDevice = [], editingDeviceIndex = None,
      editingDeviceValue = [], importText = [], draggedTaskId = None,
      dragOverTaskId = None,
      modalState = \<lparr>isOpen = False, type = Alert, title = T_none, message = M_none,
                    onConfirm = Nothing\<rparr>\<rparr>"

text \<open>
  The three things a user does to the registry. \<open>Add\<close>: type a label into the new-device
  field and press the add button. \<open>Rename\<close>: open the editor of entry \<open>index\<close>, type a
  label and save. \<open>Remove\<close>: press the delete button of entry \<open>index\<close> and confirm.
\<close>

datatype registry_op = Add string | Rename nat string | Remove nat

fun apply_op :: "app_state \<Rightarrow> registry_op \<Rightarrow> app_state" where
  "apply_op st (Add label) = handleAddDevice (st\<lparr>newDevice := label\<rparr>)"
| "apply_op st (Rename index label) =
     saveEditingDevice (st\<lparr>editingDeviceIndex := Some index, editingDeviceValue := label\<rparr>) index"
| "apply_op st (Remove index) = modal_confirm (handleDeleteDevice st index)"

definition run_ops :: "app_state \<Rightarrow> registry_op list \<Rightarrow> app_state" where
  "run_ops st ops = foldl apply_op st ops"

fun is_Remove :: "registry_op \<Rightarrow> bool" where
  "is_Remove (Remove index) = True"
| "is_Remove other = False"

section \<open>The statements of the specification\<close>

text \<open>
  The reorder as the specification words it: the source is removed, and reinserted at the
  index the target has in the list after the removal.
\<close>

definition remove_at :: "'a list \<Rightarrow> nat \<Rightarrow> 'a list" where
  "remove_at xs i = take i xs @ drop (Suc i) xs"

definition insert_at :: "'a list \<Rightarrow> nat \<Rightarrow> 'a \<Rightarrow> 'a list" where
  "insert_at xs j x = take j xs @ [x] @ drop j xs"

definition reorder_as_claimed :: "json list \<Rightarrow> string \<Rightarrow> string \<Rightarrow> json list option" where
  "reorder_as_claimed ts source target =
     (case findIndex (id_is source) ts of
        Inr (Some i) \<Rightarrow>
          (case findIndex (id_is target) (remove_at ts i) of
             Inr (Some j) \<Rightarrow> Some (insert_at (remove_at ts i) j (ts ! i))
           | _ \<Rightarrow> None)
      | _ \<Rightarrow> None)"

text \<open>
  The task sequence an imported document resolves to: the document itself when it is an
  array, its \<open>tasks\<close> field when the document is an object and the field is an array.
\<close>

fun resolved_tasks :: "json \<Rightarrow> json list option" where
  "resolved_tasks (JArr xs) = Some xs"
| "resolved_tasks (JObj kvs) = (case map_of kvs ''tasks'' of Some (JArr ts) \<Rightarrow> Some ts | _ \<Rightarrow> None)"
| "resolved_tasks v = None"

section \<open>What a value is after \<open>JSON.stringify\<close> and \<open>JSON.parse\<close>\<close>

text \<open>
  The value \<open>JSON.parse\<close> returns for the text \<open>JSON.stringify\<close> wrote for a value, by
  ECMAScript's definition of the two: a number that is not finite is written as \<open>null\<close>;
  every other value is written so that it is read back as it was, arrays and objects
  element by element in their order.
\<close>

primrec JSON_roundtrip :: "json \<Rightarrow> json" where
  "JSON_roundtrip JNull = JNull"
| "JSON_roundtrip (JBool b) = JBool b"
| "JSON_roundtrip (JNum n) = (case n of Finite x \<Rightarrow> JNum (Finite x) | _ \<Rightarrow> JNull)"
| "JSON_roundtrip (JStr s) = JStr s"
| "JSON_roundtrip (JArr xs) = JArr (map JSON_roundtrip xs)"
| "JSON_roundtrip (JObj kvs) = JObj (map (map_prod id JSON_roundtrip) kvs)"

text \<open>No number inside the value is \<open>Infinity\<close>, \<open>-Infinity\<close> or \<open>NaN\<close>.\<close>

fun all_finite :: "json \<Rightarrow> bool" where
  "all_finite (JNum n) = (case n of Finite x \<Rightarrow> True | _ \<Rightarrow> False)"
| "all_finite (JArr xs) = list_all all_finite xs"
| "all_finite (JObj kvs) = list_all (\<lambda>kv. all_finite (snd kv)) kvs"
| "all_finite v = True"

section \<open>Example data\<close>

definition sample_task :: "string \<Rightarrow> json" where
  "sample_task ident =
     JObj [(''name'', JStr ''x''), (''description'', JStr []), (''checkInTime'', JStr ''09:00''),
           (''device'', JStr ''PC''), (''appOrUrl'', JStr []), (''status'', JStr ''PENDING''),
           (''id'', JStr ident), (''createdAt'', JNum (Finite 1700000000000))]"

definition sample_data :: TaskData where
  "sample_data =
     \<lparr>name = ''y'', description = ''d'', checkInTime = ''10:30'', device = ''Pad'',
      appOrUrl = ''u'', status = COMPLETED\<rparr>"

definition sample_editing :: Task where
  "sample_editing =
     \<lparr>name = ''x'', description = [], checkInTime = ''09:00'', device = ''PC'',
      appOrUrl = [], status = PENDING, id_task = ''B'', createdAt = Finite 1700000000000\<rparr>"

definition ABCD :: "json list" where
  "ABCD = [sample_task ''A'', sample_task ''B'', sample_task ''C'', sample_task ''D'']"

text \<open>Lines joined by line feeds.\<close>

definition lines :: "string list \<Rightarrow> string" where
  "lines ls = concat (map (\<lambda>l. l @ [CHR 0x0A]) (butlast ls)) @ last ls"

text \<open>The text \<open>JSON.stringify(x, null, 2)\<close> gives for one sample task and one device.\<close>

definition sample_backup_text :: string where
  \<open>sample_backup_text = lines
     [''{'',
      ''  "tasks": ['',
      ''    {'',
      ''      "name": "x",'',
      ''      "description": "",'',
      ''      "checkInTime": "09:00",'',
      ''      "device": "PC",'',
      ''      "appOrUrl": "",'',
      ''      "status": "PENDING",'',
      ''      "id": "A",'',
      ''      "createdAt": 1700000000000'',
      ''    }'',
      ''  ],'',
      ''  "devices": ['',
      ''    "PC"'',
      ''  ],'',
      ''  "version": 1'',
      ''}'']\<close>

text \<open>
  A task whose \<open>createdAt\<close> is \<open>Infinity\<close>, the legacy import text that \<open>JSON.parse\<close> reads
  as that task, and the text \<open>JSON.stringify(x, null, 2)\<close> gives for a backup of that task
  and one device.
\<close>

definition huge_task :: json where
  "huge_task =
     JObj [(''id'', JStr ''1''), (''name'', JStr ''x''), (''checkInTime'', JStr ''09:00''),
           (''createdAt'', JNum Infinity)]"

definition text_huge_createdAt :: string where
  \<open>text_huge_createdAt =
     ''[{"id": "1", "name": "x", "checkInTime": "09:00", "createdAt": 1e999}]''\<close>

definition null_backup_text :: string where
  \<open>null_backup_text = lines
     [''{'',
      ''  "tasks": ['',
      ''    {'',
      ''      "id": "1",'',
      ''      "name": "x",'',
      ''      "checkInTime": "09:00",'',
      ''      "createdAt": null'',
      ''    }'',
      ''  ],'',
      ''  "devices": ['',
      ''    "PC"'',
      ''  ],'',
      ''  "version": 1'',
      ''}'']\<close>

text \<open>
  A stand-in for \<open>JSON.stringify(x, null, 2)\<close> that agrees with it on the two backups
  above, the only values the examples serialise.
\<close>

definition sample_stringify :: "json \<Rightarrow> string" where
  "sample_stringify v =
     (if v = JObj [(''tasks'', JArr [sample_task ''A'']), (''devices'', JArr [JStr ''PC'']),
                   (''version'', JNum (Finite 1))]
      then sample_backup_text
      else if v = JObj [(''tasks'', JArr [huge_task]), (''devices'', JArr [JStr ''PC'']),
                        (''version'', JNum (Finite 1))]
      then null_backup_text
      else ''null'')"

text \<open>Import texts: a bare empty array, an envelope with no tasks, and four more.\<close>

definition text_empty_array :: string where
  "text_empty_array = ''[]''"

definition text_empty_tasks :: string where
  \<open>text_empty_tasks = ''{"tasks": []}''\<close>

definition text_not_json :: string where
  "text_not_json = ''{not json''"

definition text_foo :: string where
  \<open>text_foo = ''{"foo": 1}''\<close>

definition text_empty_id :: string where
  \<open>text_empty_id = ''[{"id": "", "name": "x", "checkInTime": "09:00"}]''\<close>

definition text_odd_devices :: string where
  \<open>text_odd_devices =
     ''{"tasks": [{"id": "1", "name": "x", "checkInTime": "09:00"}], "devices": [5, "", "a", "a"]}''\<close>

text \<open>
  A stand-in for \<open>JSON.parse\<close> that agrees with it on the texts above and on the two
  backups; each row is the value \<open>JSON.parse\<close> returns for the text (a \<open>SyntaxError\<close> for
  \<open>text_not_json\<close>). No example parses another text.
\<close>

definition sample_parse :: "string \<Rightarrow> exn + json" where
  "sample_parse text =
     (if text = sample_backup_text
        then Inr (JObj [(''tasks'', JArr [sample_task ''A'']), (''devices'', JArr [JStr ''PC'']),
                        (''version'', JNum (Finite 1))])
      else if text = null_backup_text
        then Inr (JObj [(''tasks'', JArr [JObj [(''id'', JStr ''1''), (''name'', JStr ''x''),
                                               (''checkInTime'', JStr ''09:00''),
                                               (''createdAt'', JNull)]]),
                        (''devices'', JArr [JStr ''PC'']), (''version'', JNum (Finite 1))])
      else if text = text_huge_createdAt then Inr (JArr [huge_task])
      else if text = text_empty_array then Inr (JArr [])
      else if text = text_empty_tasks then Inr (JObj [(''tasks'', JArr [])])
      else if text = text_foo then Inr (JObj [(''foo'', JNum (Finite 1))])
      else if text = text_empty_id
        then Inr (JArr [JObj [(''id'', JStr []), (''name'', JStr ''x''),
                              (''checkInTime'', JStr ''09:00'')]])
      else if text = text_odd_devices
        then Inr (JObj [(''tasks'', JArr [JObj [(''id'', JStr ''1''), (''name'', JStr ''x''),
                                               (''checkInTime'', JStr ''09:00'')]]),
                        (''devices'', JArr [JNum (Finite 5), JStr [], JStr ''a'', JStr ''a''])])
      else Inl SyntaxError)"

text \<open>
  A state with one task and one device, and the same state with the settings panel open
  and \<open>text\<close> in the import field.
\<close>

definition one_task :: app_state where
  "one_task = initial_state [sample_task ''A''] [JStr ''PC'']"

definition importing :: "string \<Rightarrow> app_state" where
  "importing text = (one_task\<lparr>isSettingsOpen := True\<rparr>)\<lparr>importText := text\<rparr>"

text \<open>The state after \<open>text_huge_createdAt\<close> has been imported and confirmed.\<close>

definition holding_infinity :: app_state where
  "holding_infinity = modal_confirm (handleImportConfirm sample_parse (importing text_huge_createdAt))"

text \<open>
  A registry of two labels, a registry whose one entry has a space on each side (as an
  import can leave it), and a task form open on task \<open>B\<close> of \<open>[A, B, C, D]\<close>.
\<close>

definition padded_entry :: app_state where
  "padded_entry = initial_state [] [JStr '' PC '']"

definition two_devices :: app_state where
  "two_devices = initial_state [] [JStr ''PC'', JStr ''Pad'']"

definition editing_B :: app_state where
  "editing_B = (initial_state ABCD [])\<lparr>isFormOpen := True, editingTask := Some sample_editing\<rparr>"

text \<open>The list \<open>[A, B, C, D]\<close> with a drag of \<open>A\<close>, and of \<open>C\<close>, under way.\<close>

definition drag_A :: app_state where
  "drag_A = handleDragStart (initial_state ABCD []) ''A''"

definition drag_C :: app_state where
  "drag_C = handleDragStart (initial_state ABCD []) ''C''"

section \<open>Reordering\<close>

lemma findIndex_SomeD:
  "findIndex p xs = Inr (Some i) \<Longrightarrow> i < length xs \<and> p (xs ! i) = Inr True \<and> (\<forall>k<i. p (xs ! k) = Inr False)"
proof (induction xs arbitrary: i)
  case Nil
  then show ?case by simp
next
  case (Cons x xs)
  show ?case
  proof (cases "p x")
    case (Inl e)
    with Cons.prems show ?thesis by simp
  next
    case (Inr b)
    show ?thesis
    proof (cases b)
      case True
      with Inr Cons.prems show ?thesis by simp
    next
      case False
      with Inr Cons.prems obtain i' where i': "findIndex p xs = Inr (Some i')" "i = Suc i'"
        by (auto split: sum.splits option.splits)
      from Cons.IH[OF i'(1)] i'(2) Inr False show ?thesis
        by (auto simp: nth_Cons split: nat.splits)
    qed
  qed
qed

lemma findIndex_SomeI:
  "i < length xs \<Longrightarrow> p (xs ! i) = Inr True \<Longrightarrow> (\<forall>k<i. p (xs ! k) = Inr False) \<Longrightarrow> findIndex p xs = Inr (Some i)"
proof (induction xs arbitrary: i)
  case Nil
  then show ?case by simp
next
  case (Cons x xs)
  show ?case
  proof (cases i)
    case 0
    with Cons.prems show ?thesis by simp
  next
    case (Suc i')
    with Cons.prems have "p x = Inr False" by auto
    moreover have "findIndex p xs = Inr (Some i')"
      using Cons.prems Suc by (intro Cons.IH) auto
    ultimately show ?thesis using Suc by simp
  qed
qed

lemma move_item_eq:
  "i < length xs \<Longrightarrow> move_item xs i j = insert_at (remove_at xs i) j (xs ! i)"
  by (simp add: move_item_def splice_def remove_at_def insert_at_def take_Suc_conv_app_nth
      drop_Suc split: list.splits)

lemma mset_remove_at: "i < length xs \<Longrightarrow> add_mset (xs ! i) (mset (remove_at xs i)) = mset xs"
proof -
  assume "i < length xs"
  then have "xs = take i xs @ xs ! i # drop (Suc i) xs"
    by (simp add: id_take_nth_drop)
  then have "mset xs = mset (take i xs @ xs ! i # drop (Suc i) xs)" by simp
  then show ?thesis by (simp add: remove_at_def)
qed

lemma mset_insert_at: "mset (insert_at xs j x) = add_mset x (mset xs)"
proof -
  have "mset (take j xs) + mset (drop j xs) = mset xs"
    by (metis append_take_drop_id mset_append)
  then show ?thesis by (simp add: insert_at_def)
qed

lemma mset_move_item: "mset (move_item xs i j) = mset xs"
proof (cases "i < length xs")
  case True
  then show ?thesis by (simp add: move_item_eq mset_insert_at mset_remove_at)
next
  case False
  then show ?thesis by (simp add: move_item_def splice_def)
qed

lemma length_remove_at: "i < length xs \<Longrightarrow> length (remove_at xs i) = length xs - 1"
  by (simp add: remove_at_def)

lemma nth_remove_at:
  "i < length xs \<Longrightarrow> k < length xs - 1 \<Longrightarrow> remove_at xs i ! k = (if k < i then xs ! k else xs ! Suc k)"
  by (auto simp: remove_at_def nth_append min_def)

lemma nth_insert_at:
  "j \<le> length xs \<Longrightarrow> k \<le> length xs \<Longrightarrow>
   insert_at xs j x ! k = (if k < j then xs ! k else if k = j then x else xs ! (k - 1))"
proof -
  assume j: "j \<le> length xs" and k: "k \<le> length xs"
  consider "k < j" | "k = j" | "j < k" by arith
  then show ?thesis
  proof cases
    case 1
    then show ?thesis using j by (simp add: insert_at_def nth_append)
  next
    case 2
    then show ?thesis using j by (simp add: insert_at_def nth_append)
  next
    case 3
    then obtain d where d: "k = Suc (j + d)" by (metis less_iff_Suc_add)
    then show ?thesis using j k by (simp add: insert_at_def nth_append min_def)
  qed
qed

lemma id_is_distinct: "id_is s t = Inr True \<Longrightarrow> s \<noteq> s' \<Longrightarrow> id_is s' t = Inr False"
  by (auto simp: id_is_def split: sum.splits)

lemma findIndex_prefix:
  "findIndex p xs = Inr (Some j) \<Longrightarrow> take (Suc j) ys = take (Suc j) xs \<Longrightarrow> findIndex p ys = Inr (Some j)"
proof -
  assume a: "findIndex p xs = Inr (Some j)" and t: "take (Suc j) ys = take (Suc j) xs"
  from findIndex_SomeD[OF a] have j: "j < length xs" "p (xs ! j) = Inr True" "\<forall>k<j. p (xs ! k) = Inr False"
    by auto
  have len: "j < length ys"
  proof (rule ccontr)
    assume "\<not> j < length ys"
    then have "length (take (Suc j) ys) \<le> j" by simp
    moreover have "length (take (Suc j) xs) = Suc j" using j(1) by simp
    ultimately show False using t by simp
  qed
  have nth: "ys ! k = xs ! k" if "k \<le> j" for k
  proof -
    have "take (Suc j) ys ! k = take (Suc j) xs ! k" using t by simp
    then show ?thesis using that by simp
  qed
  show ?thesis
    by (rule findIndex_SomeI) (use len j nth in auto)
qed


lemma id_is_other: "id_is s t = Inr True \<Longrightarrow> id_is s' t = Inr (s' = s)"
  by (auto simp: id_is_def split: sum.splits)

lemma handleDrop_found:
  assumes "draggedTaskId st = Some source" "source \<noteq> []" "source \<noteq> target"
    and "findIndex (id_is source) (tasks st) = Inr (Some i)"
    and "findIndex (id_is target) (tasks st) = Inr (Some j)"
  shows "handleDrop st target =
           Inr (st\<lparr>tasks := insert_at (remove_at (tasks st) i) j (tasks st ! i),
                   draggedTaskId := None, dragOverTaskId := None\<rparr>)"
proof -
  have "i < length (tasks st)" using findIndex_SomeD[OF assms(4)] by simp
  then show ?thesis using assms by (simp add: handleDrop_def move_item_eq)
qed

text \<open>
  C1 (amended). For a task list that holds a task with the dragged id and a task with a
  different target id, the drop removes the source and reinserts it at the index the
  target had before the removal. The source ends at that index; it stands immediately
  before the target when it came after the target (and then the result is the one the
  specification words), and immediately after the target when it came before it.
\<close>

theorem handleDrop_lands_at_target_index:
  assumes "draggedTaskId st = Some source" "source \<noteq> []" "source \<noteq> target"
    and "findIndex (id_is source) (tasks st) = Inr (Some i)"
    and "findIndex (id_is target) (tasks st) = Inr (Some j)"
  shows "handleDrop st target =
           Inr (st\<lparr>tasks := insert_at (remove_at (tasks st) i) j (tasks st ! i),
                   draggedTaskId := None, dragOverTaskId := None\<rparr>)
       \<and> insert_at (remove_at (tasks st) i) j (tasks st ! i) ! j = tasks st ! i
       \<and> (j < i \<longrightarrow>
            insert_at (remove_at (tasks st) i) j (tasks st ! i) ! Suc j = tasks st ! j
            \<and> reorder_as_claimed (tasks st) source target
                = Some (insert_at (remove_at (tasks st) i) j (tasks st ! i)))
       \<and> (i < j \<longrightarrow>
            insert_at (remove_at (tasks st) i) j (tasks st ! i) ! (j - 1) = tasks st ! j)"
proof -
  let ?xs = "tasks st"
  let ?r = "remove_at ?xs i"
  from findIndex_SomeD[OF assms(4)] have i: "i < length ?xs" "id_is source (?xs ! i) = Inr True"
    by auto
  from findIndex_SomeD[OF assms(5)] have j: "j < length ?xs" "id_is target (?xs ! j) = Inr True"
    by auto
  have ij: "i \<noteq> j" using i(2) j(2) assms(3) by (auto dest: id_is_distinct)
  have lr: "length ?r = length ?xs - 1" using i(1) by (rule length_remove_at)
  have jr: "j \<le> length ?r" using lr j(1) by simp
  have at_j: "insert_at ?r j (?xs ! i) ! j = ?xs ! i"
    using jr by (simp add: nth_insert_at)
  have before: "insert_at ?r j (?xs ! i) ! Suc j = ?xs ! j
      \<and> reorder_as_claimed ?xs source target = Some (insert_at ?r j (?xs ! i))" if lt: "j < i"
  proof
    have "Suc j \<le> length ?r" using lr lt i(1) by simp
    then have "insert_at ?r j (?xs ! i) ! Suc j = ?r ! j"
      using jr by (simp add: nth_insert_at)
    also have "\<dots> = ?xs ! j" using lt i(1) by (simp add: nth_remove_at)
    finally show "insert_at ?r j (?xs ! i) ! Suc j = ?xs ! j" .
    have "take (Suc j) ?r = take (Suc j) ?xs"
      using lt i(1) by (simp add: remove_at_def)
    then have "findIndex (id_is target) ?r = Inr (Some j)"
      using assms(5) by (rule findIndex_prefix[rotated])
    then show "reorder_as_claimed ?xs source target = Some (insert_at ?r j (?xs ! i))"
      using assms(4) by (simp add: reorder_as_claimed_def)
  qed
  have behind: "insert_at ?r j (?xs ! i) ! (j - 1) = ?xs ! j" if lt: "i < j"
  proof -
    from lt obtain d where d: "j = Suc d" "i \<le> d" by (cases j) auto
    have "insert_at ?r j (?xs ! i) ! d = ?r ! d"
      using jr d by (simp add: nth_insert_at)
    also have "\<dots> = ?xs ! Suc d" using d i(1) j(1) by (simp add: nth_remove_at)
    finally show ?thesis using d by simp
  qed
  show ?thesis
    using handleDrop_found[OF assms] at_j before behind by blast
qed

text \<open>
  C10. A drop yields a permutation of the task list: for every state and every target
  id the tasks afterwards are, as a multiset of unchanged values, the tasks before.
\<close>

theorem handleDrop_permutation:
  "mset (tasks (after st (handleDrop st targetId))) = mset (tasks st)"
  by (simp add: handleDrop_def mset_move_item split: option.splits sum.splits)


lemma ABCD_ids:
  "id_is s (sample_task i) = Inr (i = s)"
  by (auto simp add: id_is_def sample_task_def)

lemma sample_task_eq: "sample_task i = sample_task k \<longleftrightarrow> i = k"
  by (simp add: sample_task_def)

text \<open>
  C1, as stated, fails when the source precedes the target: dragging \<open>A\<close> onto \<open>C\<close> in
  \<open>[A, B, C, D]\<close> gives \<open>[B, C, A, D]\<close>, while removing \<open>A\<close> and reinserting it at the index
  \<open>C\<close> has after the removal would give \<open>[B, A, C, D]\<close>.
\<close>

theorem handleDrop_not_as_claimed:
  "tasks (after drag_A (handleDrop drag_A ''C''))
     = [sample_task ''B'', sample_task ''C'', sample_task ''A'', sample_task ''D'']
   \<and> reorder_as_claimed (tasks drag_A) ''A'' ''C''
     = Some [sample_task ''B'', sample_task ''A'', sample_task ''C'', sample_task ''D'']
   \<and> Some (tasks (after drag_A (handleDrop drag_A ''C''))) \<noteq> reorder_as_claimed (tasks drag_A) ''A'' ''C''"
  by (simp add: drag_A_def handleDragStart_def initial_state_def ABCD_def handleDrop_def ABCD_ids
      move_item_def splice_def reorder_as_claimed_def remove_at_def insert_at_def sample_task_eq)


lemma findIndex_ABCD:
  "findIndex (id_is ''A'') ABCD = Inr (Some 0)"
  "findIndex (id_is ''B'') ABCD = Inr (Some 1)"
  "findIndex (id_is ''C'') ABCD = Inr (Some 2)"
  by (simp_all add: ABCD_def ABCD_ids)

theorem handleDrop_lands_at_target_index_witness:
  "handleDrop drag_A ''C''
     = Inr (drag_A\<lparr>tasks := [sample_task ''B'', sample_task ''C'', sample_task ''A'', sample_task ''D''],
                  draggedTaskId := None, dragOverTaskId := None\<rparr>)
   \<and> handleDrop drag_C ''B''
     = Inr (drag_C\<lparr>tasks := [sample_task ''A'', sample_task ''C'', sample_task ''B'', sample_task ''D''],
                  draggedTaskId := None, dragOverTaskId := None\<rparr>)
   \<and> reorder_as_claimed (tasks drag_C) ''C'' ''B''
     = Some [sample_task ''A'', sample_task ''C'', sample_task ''B'', sample_task ''D'']"
proof -
  have a: "draggedTaskId drag_A = Some ''A''" "tasks drag_A = ABCD"
    by (simp_all add: drag_A_def handleDragStart_def initial_state_def)
  have c: "draggedTaskId drag_C = Some ''C''" "tasks drag_C = ABCD"
    by (simp_all add: drag_C_def handleDragStart_def initial_state_def)
  have m1: "insert_at (remove_at ABCD 0) 2 (ABCD ! 0)
      = [sample_task ''B'', sample_task ''C'', sample_task ''A'', sample_task ''D'']"
    by (simp add: ABCD_def insert_at_def remove_at_def)
  have m2: "insert_at (remove_at ABCD 2) (Suc 0) (ABCD ! 2)
      = [sample_task ''A'', sample_task ''C'', sample_task ''B'', sample_task ''D'']"
    by (simp add: ABCD_def insert_at_def remove_at_def)
  show ?thesis
    using handleDrop_lands_at_target_index [of drag_A "''A''" "''C''" 0 2]
      handleDrop_lands_at_target_index [of drag_C "''C''" "''B''" 2 1]
    by (simp add: a c findIndex_ABCD m1 m2)
qed

text \<open>
  C5. On the list \<open>[A, B, C, D]\<close>: source \<open>C\<close> and target \<open>B\<close> give \<open>[A, C, B, D]\<close>; source
  \<open>A\<close> dropped on itself leaves the list unchanged; a source or a target id that is not
  in the list leaves the list unchanged.
\<close>

theorem reorder_ABCD:
  assumes "id_is ''A'' a = Inr True" "id_is ''B'' b = Inr True"
      "id_is ''C'' c = Inr True" "id_is ''D'' d = Inr True"
    and "tasks st = [a, b, c, d]"
  shows "(draggedTaskId st = Some ''C'' \<longrightarrow>
            handleDrop st ''B''
              = Inr (st\<lparr>tasks := [a, c, b, d], draggedTaskId := None, dragOverTaskId := None\<rparr>))
       \<and> (draggedTaskId st = Some ''A'' \<longrightarrow>
            handleDrop st ''A'' = Inr (st\<lparr>draggedTaskId := None, dragOverTaskId := None\<rparr>))
       \<and> (draggedTaskId st = Some source
            \<and> (source \<notin> {''A'', ''B'', ''C'', ''D''} \<or> target \<notin> {''A'', ''B'', ''C'', ''D''}) \<longrightarrow>
            handleDrop st target = Inr (st\<lparr>draggedTaskId := None, dragOverTaskId := None\<rparr>))"
proof -
  note ids = id_is_other[OF assms(1)] id_is_other[OF assms(2)] id_is_other[OF assms(3)]
    id_is_other[OF assms(4)]
  have 1: "handleDrop st ''B''
      = Inr (st\<lparr>tasks := [a, c, b, d], draggedTaskId := None, dragOverTaskId := None\<rparr>)"
    if "draggedTaskId st = Some ''C''"
    using that assms(5) by (simp add: handleDrop_def ids move_item_def splice_def)
  have 2: "handleDrop st ''A'' = Inr (st\<lparr>draggedTaskId := None, dragOverTaskId := None\<rparr>)"
    if "draggedTaskId st = Some ''A''"
    using that by (simp add: handleDrop_def)
  have 3: "handleDrop st target = Inr (st\<lparr>draggedTaskId := None, dragOverTaskId := None\<rparr>)"
    if "draggedTaskId st = Some source"
      and "source \<notin> {''A'', ''B'', ''C'', ''D''} \<or> target \<notin> {''A'', ''B'', ''C'', ''D''}"
  proof -
    have "findIndex (id_is source) [a, b, c, d] = Inr None \<or> findIndex (id_is target) [a, b, c, d] = Inr None"
      using that(2) by (auto simp: ids)
    moreover have "\<exists>r. findIndex (id_is source) [a, b, c, d] = Inr r"
      by (simp add: ids)
    moreover have "\<exists>r. findIndex (id_is target) [a, b, c, d] = Inr r"
      by (simp add: ids)
    ultimately show ?thesis
      using that(1) assms(5) by (auto simp: handleDrop_def split: option.splits)
  qed
  show ?thesis using 1 2 3 by blast
qed

theorem reorder_ABCD_witness:
  "handleDrop drag_C ''B''
     = Inr (drag_C\<lparr>tasks := [sample_task ''A'', sample_task ''C'', sample_task ''B'', sample_task ''D''],
                  draggedTaskId := None, dragOverTaskId := None\<rparr>)
   \<and> handleDrop drag_A ''A'' = Inr (drag_A\<lparr>draggedTaskId := None, dragOverTaskId := None\<rparr>)
   \<and> handleDrop drag_A ''E'' = Inr (drag_A\<lparr>draggedTaskId := None, dragOverTaskId := None\<rparr>)"
proof -
  have a: "draggedTaskId drag_A = Some ''A''" "tasks drag_A = ABCD"
    by (simp_all add: drag_A_def handleDragStart_def initial_state_def)
  have c: "draggedTaskId drag_C = Some ''C''" "tasks drag_C = ABCD"
    by (simp_all add: drag_C_def handleDragStart_def initial_state_def)
  show ?thesis
    using reorder_ABCD [of "sample_task ''A''" "sample_task ''B''" "sample_task ''C''" "sample_task ''D''" drag_C]
      reorder_ABCD [of "sample_task ''A''" "sample_task ''B''" "sample_task ''C''" "sample_task ''D''" drag_A "''A''" "''E''"]
    by (simp add: a c ABCD_ids ABCD_def)
qed

theorem handleDrop_permutation_witness:
  "mset (tasks (after drag_A (handleDrop drag_A ''C''))) = mset ABCD"
  using handleDrop_permutation [of drag_A "''C''"]
  by (simp add: drag_A_def handleDragStart_def initial_state_def)


section \<open>Modal helpers leave the lists alone\<close>

lemma devices_showAlert [simp]: "devices (showAlert t m st) = devices st"
  by (simp add: showAlert_def)

lemma tasks_showAlert [simp]: "tasks (showAlert t m st) = tasks st"
  by (simp add: showAlert_def)

lemma devices_closeModal [simp]: "devices (closeModal st) = devices st"
  by (simp add: closeModal_def)

lemma tasks_closeModal [simp]: "tasks (closeModal st) = tasks st"
  by (simp add: closeModal_def)

lemma devices_showConfirm [simp]: "devices (showConfirm t m a st) = devices st"
  by (simp add: showConfirm_def)

lemma tasks_showConfirm [simp]: "tasks (showConfirm t m a st) = tasks st"
  by (simp add: showConfirm_def)

lemma modal_confirm_showAlert: "modal_confirm (showAlert t m st) = closeModal (showAlert t m st)"
  by (simp add: modal_confirm_def showAlert_def)

lemma modal_confirm_showConfirm:
  "modal_confirm (showConfirm t m a st) = closeModal (run_yes a (showConfirm t m a st))"
  by (simp add: modal_confirm_def showConfirm_def)

section \<open>Saving an edited task\<close>

lemma get_prop_total: "t \<noteq> JNull \<Longrightarrow> \<exists>v. get_prop t k = Inr v"
  by (cases t) simp_all

lemma id_is_total: "t \<noteq> JNull \<Longrightarrow> id_is s t = Inr (get_prop t ''id'' = Inr (Some (JStr s)))"
  by (cases t) (simp_all add: id_is_def)

lemma id_is_TrueD: "id_is s t = Inr True \<Longrightarrow> \<exists>kvs. t = JObj kvs \<and> map_of kvs ''id'' = Some (JStr s)"
  by (cases t) (simp_all add: id_is_def)

lemma map_exn_Inr: "(\<And>x. x \<in> set xs \<Longrightarrow> f x = Inr (g x)) \<Longrightarrow> map_exn f xs = Inr (map g xs)"
  by (induction xs) simp_all

lemma save_update_total:
  "t \<noteq> JNull \<Longrightarrow>
   save_update et taskData t =
     Inr (if id_is (id_task et) t = Inr True
          then JObj (obj_assign (own_props t) (TaskData_props taskData)) else t)"
  by (simp add: save_update_def id_is_total)

lemma map_of_obj_assign_TaskData:
  "map_of (obj_assign kvs (TaskData_props d)) =
     (map_of kvs)(''name'' \<mapsto> JStr (name d), ''description'' \<mapsto> JStr (description d),
        ''checkInTime'' \<mapsto> JStr (checkInTime d), ''device'' \<mapsto> JStr (device d),
        ''appOrUrl'' \<mapsto> JStr (appOrUrl d), ''status'' \<mapsto> JStr (TaskStatus_value (status d)))"
  by (simp add: obj_assign_def TaskData_props_def update_conv')

text \<open>
  C7. With the form open on a task (\<open>editingTask\<close>), saving maps over a task list
  without \<open>null\<close> entries: every task whose \<open>id\<close> is the edited one gets the six
  submitted fields and keeps \<open>id\<close>, \<open>createdAt\<close> and every other property; every other
  task, the length and the order stay the same; when no task has that \<open>id\<close> the list is
  unchanged.
\<close>

theorem handleSaveTask_update:
  assumes "editingTask st = Some et" and "JNull \<notin> set (tasks st)"
  shows "\<exists>ts. handleSaveTask st taskData uuid now
                = Inr (st\<lparr>tasks := ts, isFormOpen := False, editingTask := None\<rparr>)
      \<and> length ts = length (tasks st)
      \<and> (\<forall>k<length ts.
            if id_is (id_task et) (tasks st ! k) = Inr True
            then get_prop (ts ! k) ''name'' = Inr (Some (JStr (name taskData)))
               \<and> get_prop (ts ! k) ''description'' = Inr (Some (JStr (description taskData)))
               \<and> get_prop (ts ! k) ''checkInTime'' = Inr (Some (JStr (checkInTime taskData)))
               \<and> get_prop (ts ! k) ''device'' = Inr (Some (JStr (device taskData)))
               \<and> get_prop (ts ! k) ''appOrUrl'' = Inr (Some (JStr (appOrUrl taskData)))
               \<and> get_prop (ts ! k) ''status'' = Inr (Some (JStr (TaskStatus_value (status taskData))))
               \<and> get_prop (ts ! k) ''id'' = get_prop (tasks st ! k) ''id''
               \<and> get_prop (ts ! k) ''createdAt'' = get_prop (tasks st ! k) ''createdAt''
               \<and> (\<forall>key. key \<notin> fst ` set (TaskData_props taskData) \<longrightarrow>
                     get_prop (ts ! k) key = get_prop (tasks st ! k) key)
            else ts ! k = tasks st ! k)
      \<and> ((\<forall>t\<in>set (tasks st). id_is (id_task et) t \<noteq> Inr True) \<longrightarrow> ts = tasks st)"
proof -
  let ?g = "\<lambda>t. if id_is (id_task et) t = Inr True
                then JObj (obj_assign (own_props t) (TaskData_props taskData)) else t"
  let ?ts = "map ?g (tasks st)"
  have m: "map_exn (save_update et taskData) (tasks st) = Inr ?ts"
  proof (rule map_exn_Inr)
    fix x assume "x \<in> set (tasks st)"
    then have "x \<noteq> JNull" using assms(2) by auto
    then show "save_update et taskData x = Inr (?g x)" by (rule save_update_total)
  qed
  have r: "handleSaveTask st taskData uuid now
      = Inr (st\<lparr>tasks := ?ts, isFormOpen := False, editingTask := None\<rparr>)"
    using assms(1) m by (simp add: handleSaveTask_def)
  have each: "if id_is (id_task et) (tasks st ! k) = Inr True
            then get_prop (?ts ! k) ''name'' = Inr (Some (JStr (name taskData)))
               \<and> get_prop (?ts ! k) ''description'' = Inr (Some (JStr (description taskData)))
               \<and> get_prop (?ts ! k) ''checkInTime'' = Inr (Some (JStr (checkInTime taskData)))
               \<and> get_prop (?ts ! k) ''device'' = Inr (Some (JStr (device taskData)))
               \<and> get_prop (?ts ! k) ''appOrUrl'' = Inr (Some (JStr (appOrUrl taskData)))
               \<and> get_prop (?ts ! k) ''status'' = Inr (Some (JStr (TaskStatus_value (status taskData))))
               \<and> get_prop (?ts ! k) ''id'' = get_prop (tasks st ! k) ''id''
               \<and> get_prop (?ts ! k) ''createdAt'' = get_prop (tasks st ! k) ''createdAt''
               \<and> (\<forall>key. key \<notin> fst ` set (TaskData_props taskData) \<longrightarrow>
                     get_prop (?ts ! k) key = get_prop (tasks st ! k) key)
            else ?ts ! k = tasks st ! k" if k: "k < length ?ts" for k
  proof (cases "id_is (id_task et) (tasks st ! k) = Inr True")
    case True
    then obtain kvs where kvs: "tasks st ! k = JObj kvs" using id_is_TrueD by blast
    have tk: "?ts ! k = JObj (obj_assign kvs (TaskData_props taskData))"
      using k True kvs by simp
    show ?thesis
      using True by (simp add: tk kvs map_of_obj_assign_TaskData) (simp add: TaskData_props_def)
  next
    case False
    then show ?thesis using k by simp
  qed
  have none: "?ts = tasks st" if "\<forall>t\<in>set (tasks st). id_is (id_task et) t \<noteq> Inr True"
    using that by (simp add: map_idI)
  show ?thesis
  proof (intro exI conjI allI impI)
    show "handleSaveTask st taskData uuid now
        = Inr (st\<lparr>tasks := ?ts, isFormOpen := False, editingTask := None\<rparr>)"
      by (rule r)
    show "length ?ts = length (tasks st)" by simp
    show "if id_is (id_task et) (tasks st ! k) = Inr True
            then get_prop (?ts ! k) ''name'' = Inr (Some (JStr (name taskData)))
               \<and> get_prop (?ts ! k) ''description'' = Inr (Some (JStr (description taskData)))
               \<and> get_prop (?ts ! k) ''checkInTime'' = Inr (Some (JStr (checkInTime taskData)))
               \<and> get_prop (?ts ! k) ''device'' = Inr (Some (JStr (device taskData)))
               \<and> get_prop (?ts ! k) ''appOrUrl'' = Inr (Some (JStr (appOrUrl taskData)))
               \<and> get_prop (?ts ! k) ''status'' = Inr (Some (JStr (TaskStatus_value (status taskData))))
               \<and> get_prop (?ts ! k) ''id'' = get_prop (tasks st ! k) ''id''
               \<and> get_prop (?ts ! k) ''createdAt'' = get_prop (tasks st ! k) ''createdAt''
               \<and> (\<forall>key. key \<notin> fst ` set (TaskData_props taskData) \<longrightarrow>
                     get_prop (?ts ! k) key = get_prop (tasks st ! k) key)
            else ?ts ! k = tasks st ! k" if "k < length ?ts" for k
      using that by (rule each)
    show "?ts = tasks st" if "\<forall>t\<in>set (tasks st). id_is (id_task et) t \<noteq> Inr True"
      using that by (rule none)
  qed
qed

theorem handleSaveTask_update_witness:
  "handleSaveTask editing_B sample_data ''uuid'' 0
     = Inr (editing_B\<lparr>tasks :=
              [sample_task ''A'',
               JObj [(''name'', JStr ''y''), (''description'', JStr ''d''),
                     (''checkInTime'', JStr ''10:30''), (''device'', JStr ''Pad''),
                     (''appOrUrl'', JStr ''u''), (''status'', JStr ''COMPLETED''),
                     (''id'', JStr ''B''), (''createdAt'', JNum (Finite 1700000000000))],
               sample_task ''C'', sample_task ''D''],
              isFormOpen := False, editingTask := None\<rparr>)"
proof -
  have e: "editingTask editing_B = Some sample_editing" "tasks editing_B = ABCD"
    by (simp_all add: editing_B_def initial_state_def)
  have n: "JNull \<notin> set (tasks editing_B)"
    by (simp add: e ABCD_def sample_task_def)
  have u: "obj_assign (own_props (sample_task ''B'')) (TaskData_props sample_data)
      = [(''name'', JStr ''y''), (''description'', JStr ''d''),
                     (''checkInTime'', JStr ''10:30''), (''device'', JStr ''Pad''),
                     (''appOrUrl'', JStr ''u''), (''status'', JStr ''COMPLETED''),
                     (''id'', JStr ''B''), (''createdAt'', JNum (Finite 1700000000000))]"
    by (simp add: sample_task_def obj_assign_def TaskData_props_def sample_data_def)
  have "handleSaveTask editing_B sample_data ''uuid'' 0
     = Inr (editing_B\<lparr>tasks :=
              [sample_task ''A'', JObj (obj_assign (own_props (sample_task ''B'')) (TaskData_props sample_data)),
               sample_task ''C'', sample_task ''D''],
              isFormOpen := False, editingTask := None\<rparr>)"
    using handleSaveTask_update [OF e(1) n, of sample_data "''uuid''" 0]
    by (simp add: handleSaveTask_def e ABCD_def save_update_def ABCD_ids sample_editing_def)
  then show ?thesis by (simp only: u)
qed

section \<open>The device registry\<close>

lemma leading_Nil: "[] \<notin> set ws \<Longrightarrow> leading ws [] = None"
  by (auto simp: leading_def find_None_iff)

lemma leading_SomeD:
  "leading ws s = Some w \<Longrightarrow> w \<in> set ws \<and> s = w @ drop (length w) s"
proof -
  assume "leading ws s = Some w"
  then have "w \<in> set ws" "take (length w) s = w"
    by (auto simp: leading_def find_Some_iff)
  then show ?thesis by (metis append_take_drop_id)
qed

text \<open>The rounds given to \<open>strip\<close> are enough: nothing removable is left.\<close>

lemma strip_done: "[] \<notin> set ws \<Longrightarrow> length s \<le> n \<Longrightarrow> leading ws (strip n ws s) = None"
proof (induction n arbitrary: s)
  case 0
  then show ?case by (simp add: leading_Nil)
next
  case (Suc n)
  show ?case
  proof (cases "leading ws s")
    case None
    then show ?thesis by simp
  next
    case (Some w)
    from leading_SomeD[OF Some] have w: "w \<in> set ws" "s = w @ drop (length w) s" by auto
    then have "w \<noteq> []" using Suc.prems(1) by auto
    then have "length (drop (length w) s) < length s"
      using w(2) by (metis add_diff_cancel_left' length_append length_drop length_greater_0_conv
          less_add_same_cancel2)
    then have "length (drop (length w) s) \<le> n" using Suc.prems(2) by simp
    from Suc.IH[OF Suc.prems(1) this] show ?thesis using Some by simp
  qed
qed

lemma white_space_nonempty: "[] \<notin> set white_space" "[] \<notin> set (map rev white_space)"
  by (simp_all add: white_space_def)

lemma trimStart_done: "leading white_space (trimStart s) = None"
  unfolding trimStart_def by (rule strip_done[OF white_space_nonempty(1)]) simp

lemma trimEnd_done: "leading (map rev white_space) (rev (trimEnd s)) = None"
  unfolding trimEnd_def rev_rev_ident by (rule strip_done[OF white_space_nonempty(2)]) simp

lemmas trim_eval = trim_def trimStart_def trimEnd_def leading_def white_space_def

lemma filter_enumerate_index:
  "map snd (filter (\<lambda>p. fst p \<noteq> n + i) (enumerate n xs)) = take i xs @ drop (Suc i) xs"
proof (induction xs arbitrary: n i)
  case Nil
  then show ?case by simp
next
  case (Cons x xs)
  show ?case
  proof (cases i)
    case 0
    have "filter (\<lambda>p. fst p \<noteq> n) (enumerate (Suc n) xs) = enumerate (Suc n) xs"
      by (rule filter_True) (auto simp: in_set_enumerate_eq)
    then show ?thesis using 0 by simp
  next
    case (Suc i')
    then show ?thesis using Cons.IH[of "Suc n" i'] by simp
  qed
qed

lemma filter_index_eq: "filter_index xs i = take i xs @ drop (Suc i) xs"
  using filter_enumerate_index[of 0 i xs] by (simp add: filter_index_def)

lemma length_filter_index:
  "length (filter_index xs i) = (if i < length xs then length xs - 1 else length xs)"
  by (auto simp: filter_index_eq min_def)

lemma some_other_iff:
  "some_other xs index label \<longleftrightarrow> (\<exists>k<length xs. k \<noteq> index \<and> xs ! k = JStr label)"
proof
  assume "some_other xs index label"
  then obtain p where "p \<in> set (enumerate 0 xs)" "fst p \<noteq> index" "snd p = JStr label"
    by (auto simp: some_other_def list_ex_iff)
  then have "fst p < length xs \<and> fst p \<noteq> index \<and> xs ! fst p = JStr label"
    by (simp add: in_set_enumerate_eq)
  then show "\<exists>k<length xs. k \<noteq> index \<and> xs ! k = JStr label" by blast
next
  assume "\<exists>k<length xs. k \<noteq> index \<and> xs ! k = JStr label"
  then obtain k where k: "k < length xs" "k \<noteq> index" "xs ! k = JStr label" by blast
  then have "(k, xs ! k) \<in> set (enumerate 0 xs)" by (simp add: in_set_enumerate_eq)
  then show "some_other xs index label"
    using k by (auto simp: some_other_def list_ex_iff intro!: bexI[of _ "(k, xs ! k)"])
qed

lemma length_array_set: "length xs \<le> length (array_set xs i v)"
  by (simp add: array_set_def)

lemma devices_add: "length (devices st) \<le> length (devices (handleAddDevice st))"
  by (simp add: handleAddDevice_def)

lemma devices_rename: "length (devices st) \<le> length (devices (saveEditingDevice st index))"
  by (simp add: saveEditingDevice_def length_array_set)

lemma devices_remove:
  "devices (modal_confirm (handleDeleteDevice st index)) = filter_index (devices st) index"
  by (simp add: modal_confirm_def handleDeleteDevice_def showConfirm_def)

lemma apply_op_length:
  "length (devices st) \<le> length (devices (apply_op st op)) + (if is_Remove op then 1 else 0)"
proof (cases op)
  case (Add label)
  then show ?thesis using devices_add[of "st\<lparr>newDevice := label\<rparr>"] by simp
next
  case (Rename index label)
  then show ?thesis
    using devices_rename[of "st\<lparr>editingDeviceIndex := Some index, editingDeviceValue := label\<rparr>" index]
    by simp
next
  case (Remove index)
  have "length (devices st) \<le> length (filter_index (devices st) index) + 1"
    by (auto simp: length_filter_index)
  then show ?thesis using Remove by (simp add: devices_remove)
qed

lemma run_ops_length:
  "length (devices st) \<le> length (devices (run_ops st ops)) + length (filter is_Remove ops)"
  unfolding run_ops_def
proof (induction ops arbitrary: st)
  case Nil
  then show ?case by simp
next
  case (Cons op ops)
  have "length (devices st) \<le> length (devices (apply_op st op)) + (if is_Remove op then 1 else 0)"
    by (rule apply_op_length)
  also have "length (devices (apply_op st op))
      \<le> length (devices (foldl apply_op (apply_op st op) ops)) + length (filter is_Remove ops)"
    by (rule Cons.IH)
  finally show ?case by (simp split: if_splits)
qed

text \<open>
  C6 (amended). With nothing stored the registry starts as the four default labels. Add
  and rename never make a non-empty registry empty, and over any sequence of operations the
  registry loses at most one entry per remove; so it stays non-empty under every sequence
  of adds and renames. Remove deletes the entry at a valid index without any condition.
\<close>

theorem registry_shrinks_only_by_remove:
  "initial_devices parse None = JArr DEFAULT_DEVICES \<and> DEFAULT_DEVICES \<noteq> []
   \<and> (devices st \<noteq> [] \<longrightarrow>
        devices (apply_op st (Add label)) \<noteq> [] \<and> devices (apply_op st (Rename index label)) \<noteq> [])
   \<and> length (devices st) \<le> length (devices (run_ops st ops)) + length (filter is_Remove ops)
   \<and> (devices st \<noteq> [] \<and> filter is_Remove ops = [] \<longrightarrow> devices (run_ops st ops) \<noteq> [])
   \<and> (index < length (devices st) \<longrightarrow>
        length (devices (apply_op st (Remove index))) = length (devices st) - 1)"
proof -
  have a: "devices (apply_op st (Add label)) \<noteq> []" if "devices st \<noteq> []"
    using that apply_op_length[of st "Add label"] by auto
  have r: "devices (apply_op st (Rename index label)) \<noteq> []" if "devices st \<noteq> []"
    using that apply_op_length[of st "Rename index label"] by auto
  have d: "length (devices (apply_op st (Remove index))) = length (devices st) - 1"
    if "index < length (devices st)"
    using that by (simp add: devices_remove length_filter_index)
  have n: "devices (run_ops st ops) \<noteq> []" if "devices st \<noteq> []" "filter is_Remove ops = []"
    using that run_ops_length[of st ops] by auto
  show ?thesis
    using a r d n run_ops_length[of st ops]
    by (simp add: initial_devices_def DEFAULT_DEVICES_def)
qed

text \<open>
  C6, as stated, fails: starting from the default registry, four removals leave it empty.
\<close>

theorem registry_emptied_by_remove:
  "initial_devices sample_parse None = JArr DEFAULT_DEVICES
   \<and> devices (run_ops (initial_state [] DEFAULT_DEVICES) [Remove 0, Remove 0, Remove 0, Remove 0]) = []"
  by (simp add: initial_devices_def run_ops_def devices_remove filter_index_eq DEFAULT_DEVICES_def
      initial_state_def)

theorem registry_shrinks_only_by_remove_witness:
  "devices (run_ops two_devices [Add ''TV'', Rename 0 ''TV'']) = [JStr ''PC'', JStr ''Pad'', JStr ''TV'']
   \<and> devices (apply_op two_devices (Add ''TV'')) = [JStr ''PC'', JStr ''Pad'', JStr ''TV'']
   \<and> devices (apply_op two_devices (Rename 0 ''TV'')) = [JStr ''TV'', JStr ''Pad'']
   \<and> devices (apply_op two_devices (Remove 1)) = [JStr ''PC'']
   \<and> length (devices (apply_op two_devices (Remove 1))) = length (devices two_devices) - 1"
proof -
  have d: "devices two_devices = [JStr ''PC'', JStr ''Pad'']"
    by (simp add: two_devices_def initial_state_def)
  have t: "trim ''TV'' = ''TV''" by (simp add: trim_eval)
  show ?thesis
    using registry_shrinks_only_by_remove [of sample_parse two_devices "''TV''" 0
        "[Add ''TV'', Rename 0 ''TV'']"]
      registry_shrinks_only_by_remove [of sample_parse two_devices "''TV''" 1 "[]"]
    by (simp add: d t run_ops_def devices_remove filter_index_eq handleAddDevice_def
        saveEditingDevice_def some_other_def array_set_def at_index_def showAlert_def)
qed


lemma array_set_same: "at_index xs i = Some v \<Longrightarrow> array_set xs i v = xs"
  by (auto simp: at_index_def array_set_def split: if_splits)

text \<open>
  C8 (amended). Both handlers compare the typed label after \<open>trim()\<close>. Add leaves the
  state unchanged when the trimmed text is empty, or is already an entry. Rename leaves the
  registry unchanged when the trimmed text is empty, or is the entry at another index, and
  then shows the alert, except when the trimmed text is the entry's own value: that closes
  the editor and changes nothing else.
\<close>

theorem registry_rejects_blank_and_duplicate:
  "(trim (newDevice st) = [] \<or> JStr (trim (newDevice st)) \<in> set (devices st) \<longrightarrow>
      handleAddDevice st = st)
   \<and> (trim (editingDeviceValue st) = []
        \<or> (\<exists>k<length (devices st). k \<noteq> index
              \<and> devices st ! k = JStr (trim (editingDeviceValue st))) \<longrightarrow>
        devices (saveEditingDevice st index) = devices st
        \<and> (at_index (devices st) index \<noteq> Some (JStr (trim (editingDeviceValue st))) \<longrightarrow>
             saveEditingDevice st index = showAlert T_cannot_save M_device_name_empty_or_exists st))
   \<and> (at_index (devices st) index = Some (JStr (trim (editingDeviceValue st))) \<longrightarrow>
        saveEditingDevice st index = st\<lparr>editingDeviceIndex := None\<rparr>)"
proof (intro conjI impI)
  assume "trim (newDevice st) = [] \<or> JStr (trim (newDevice st)) \<in> set (devices st)"
  then show "handleAddDevice st = st"
    by (auto simp: handleAddDevice_def)
next
  assume rej: "trim (editingDeviceValue st) = []
        \<or> (\<exists>k<length (devices st). k \<noteq> index
              \<and> devices st ! k = JStr (trim (editingDeviceValue st)))"
  then have c: "\<not> (trim (editingDeviceValue st) \<noteq> []
         \<and> \<not> some_other (devices st) index (trim (editingDeviceValue st)))"
    by (auto simp: some_other_iff)
  then show "devices (saveEditingDevice st index) = devices st"
    by (auto simp: saveEditingDevice_def)
  show "saveEditingDevice st index = showAlert T_cannot_save M_device_name_empty_or_exists st"
    if "at_index (devices st) index \<noteq> Some (JStr (trim (editingDeviceValue st)))"
    using c that by (auto simp: saveEditingDevice_def)
next
  assume self: "at_index (devices st) index = Some (JStr (trim (editingDeviceValue st)))"
  then have "array_set (devices st) index (JStr (trim (editingDeviceValue st))) = devices st"
    by (rule array_set_same)
  then show "saveEditingDevice st index = st\<lparr>editingDeviceIndex := None\<rparr>"
    using self by (simp add: saveEditingDevice_def)
qed

theorem registry_rejects_blank_and_duplicate_witness:
  "handleAddDevice (two_devices\<lparr>newDevice := ''  ''\<rparr>) = two_devices\<lparr>newDevice := ''  ''\<rparr>
   \<and> handleAddDevice (two_devices\<lparr>newDevice := [CHR 0xE3, CHR 0x80, CHR 0x80]\<rparr>)
       = two_devices\<lparr>newDevice := [CHR 0xE3, CHR 0x80, CHR 0x80]\<rparr>
   \<and> handleAddDevice (two_devices\<lparr>newDevice := [CHR 0xC2, CHR 0xA0] @ ''Pad''\<rparr>)
       = two_devices\<lparr>newDevice := [CHR 0xC2, CHR 0xA0] @ ''Pad''\<rparr>
   \<and> handleAddDevice (two_devices\<lparr>newDevice := '' Pad''\<rparr>) = two_devices\<lparr>newDevice := '' Pad''\<rparr>
   \<and> saveEditingDevice (two_devices\<lparr>editingDeviceValue := ''Pad''\<rparr>) 0
       = showAlert T_cannot_save M_device_name_empty_or_exists (two_devices\<lparr>editingDeviceValue := ''Pad''\<rparr>)
   \<and> saveEditingDevice (two_devices\<lparr>editingDeviceValue := []\<rparr>) 0
       = showAlert T_cannot_save M_device_name_empty_or_exists (two_devices\<lparr>editingDeviceValue := []\<rparr>)
   \<and> saveEditingDevice (two_devices\<lparr>editingDeviceIndex := Some 0, editingDeviceValue := ''PC''\<rparr>) 0
       = two_devices\<lparr>editingDeviceIndex := None, editingDeviceValue := ''PC''\<rparr>"
proof -
  have d: "devices two_devices = [JStr ''PC'', JStr ''Pad'']"
    by (simp add: two_devices_def initial_state_def)
  have t: "trim ''  '' = []" "trim '' Pad'' = ''Pad''" "trim ''Pad'' = ''Pad''" "trim ''PC'' = ''PC''"
      "trim [] = []" "trim [CHR 0xE3, CHR 0x80, CHR 0x80] = []"
      "trim ([CHR 0xC2, CHR 0xA0] @ ''Pad'') = ''Pad''"
    by (simp_all add: trim_eval)
  have 1: "handleAddDevice (two_devices\<lparr>newDevice := ''  ''\<rparr>) = two_devices\<lparr>newDevice := ''  ''\<rparr>"
    using registry_rejects_blank_and_duplicate [of "two_devices\<lparr>newDevice := ''  ''\<rparr>" 0]
    by (simp add: t handleAddDevice_def)
  have 2: "handleAddDevice (two_devices\<lparr>newDevice := [CHR 0xE3, CHR 0x80, CHR 0x80]\<rparr>)
       = two_devices\<lparr>newDevice := [CHR 0xE3, CHR 0x80, CHR 0x80]\<rparr>"
    using registry_rejects_blank_and_duplicate
        [of "two_devices\<lparr>newDevice := [CHR 0xE3, CHR 0x80, CHR 0x80]\<rparr>" 0]
    by (simp add: t handleAddDevice_def)
  have 3: "handleAddDevice (two_devices\<lparr>newDevice := [CHR 0xC2, CHR 0xA0] @ ''Pad''\<rparr>)
       = two_devices\<lparr>newDevice := [CHR 0xC2, CHR 0xA0] @ ''Pad''\<rparr>"
    using registry_rejects_blank_and_duplicate
        [of "two_devices\<lparr>newDevice := [CHR 0xC2, CHR 0xA0] @ ''Pad''\<rparr>" 0] t(7)
    by (simp add: d handleAddDevice_def)
  have 4: "handleAddDevice (two_devices\<lparr>newDevice := '' Pad''\<rparr>) = two_devices\<lparr>newDevice := '' Pad''\<rparr>"
    using registry_rejects_blank_and_duplicate [of "two_devices\<lparr>newDevice := '' Pad''\<rparr>" 0]
    by (simp add: d t handleAddDevice_def)
  have 5: "saveEditingDevice (two_devices\<lparr>editingDeviceValue := ''Pad''\<rparr>) 0
       = showAlert T_cannot_save M_device_name_empty_or_exists (two_devices\<lparr>editingDeviceValue := ''Pad''\<rparr>)"
    using registry_rejects_blank_and_duplicate [of "two_devices\<lparr>editingDeviceValue := ''Pad''\<rparr>" 0]
    by (simp add: d t at_index_def saveEditingDevice_def some_other_def array_set_def)
  have 6: "saveEditingDevice (two_devices\<lparr>editingDeviceValue := []\<rparr>) 0
       = showAlert T_cannot_save M_device_name_empty_or_exists (two_devices\<lparr>editingDeviceValue := []\<rparr>)"
    using registry_rejects_blank_and_duplicate [of "two_devices\<lparr>editingDeviceValue := []\<rparr>" 0]
    by (simp add: d t at_index_def saveEditingDevice_def some_other_def array_set_def)
  have 7: "saveEditingDevice (two_devices\<lparr>editingDeviceIndex := Some 0, editingDeviceValue := ''PC''\<rparr>) 0
       = two_devices\<lparr>editingDeviceIndex := None, editingDeviceValue := ''PC''\<rparr>"
    using registry_rejects_blank_and_duplicate
        [of "two_devices\<lparr>editingDeviceIndex := Some 0, editingDeviceValue := ''PC''\<rparr>" 0]
    by (simp add: d t at_index_def saveEditingDevice_def some_other_def array_set_def)
  show ?thesis using 1 2 3 4 5 6 7 by simp
qed

text \<open>
  C8, as stated, fails for an entry that is not trimmed: with the one entry \<open>' PC '\<close>,
  adding the label \<open>' PC '\<close> appends \<open>'PC'\<close> although the label is present, and renaming the
  entry to its own value rewrites it to \<open>'PC'\<close>.
\<close>

theorem registry_compares_trimmed_text:
  "devices padded_entry = [JStr '' PC '']
   \<and> devices (handleAddDevice (padded_entry\<lparr>newDevice := '' PC ''\<rparr>)) = [JStr '' PC '', JStr ''PC'']
   \<and> devices (saveEditingDevice (padded_entry\<lparr>editingDeviceIndex := Some 0,
                                                editingDeviceValue := '' PC ''\<rparr>) 0)
       = [JStr ''PC'']"
proof -
  have t: "trim '' PC '' = ''PC''" by (simp add: trim_eval)
  show ?thesis
    by (simp add: padded_entry_def initial_state_def handleAddDevice_def saveEditingDevice_def t
        some_other_def array_set_def)
qed

section \<open>Import and export\<close>

lemma truthy_isArray_iff: "truthy v \<and> isArray v \<longleftrightarrow> (\<exists>xs. v = Some (JArr xs))"
  by (cases v rule: isArray.cases) auto

lemma task_has_fields_iff:
  "task_has_fields t = Inr True \<longleftrightarrow>
     (\<exists>kvs. t = JObj kvs \<and> truthy (map_of kvs ''id'') \<and> truthy (map_of kvs ''name'')
        \<and> truthy (map_of kvs ''checkInTime''))"
  by (cases t) (auto simp: task_has_fields_def)

lemma every_True_iff: "every p xs = Inr True \<longleftrightarrow> (\<forall>x\<in>set xs. p x = Inr True)"
  by (induction xs) (auto split: sum.splits)

lemma every_cases: "(\<exists>e. every p xs = Inl e) \<or> every p xs = Inr False \<or> every p xs = Inr True"
  by (cases "every p xs") auto

lemma import_validate_valid:
  "\<forall>t\<in>set ts. task_has_fields t = Inr True \<Longrightarrow>
   import_validate ts ds st = Inr (showConfirm T_restore_data M_confirm_restore (RestoreData ts ds) st)"
  by (simp add: import_validate_def every_True_iff[symmetric])

lemma import_validate_invalid:
  "t \<in> set ts \<Longrightarrow> task_has_fields t \<noteq> Inr True \<Longrightarrow>
   (\<exists>e. import_validate ts ds st = Inl e)
   \<or> import_validate ts ds st = Inr (showAlert T_import_failed M_task_data_malformed st)"
proof -
  assume "t \<in> set ts" "task_has_fields t \<noteq> Inr True"
  then have "every task_has_fields ts \<noteq> Inr True" by (auto simp: every_True_iff)
  then show ?thesis
    using every_cases[of task_has_fields ts] by (auto simp: import_validate_def)
qed

lemma import_check_nonempty: "ts \<noteq> [] \<Longrightarrow> import_check data ts ds st = import_validate ts ds st"
  by (simp add: import_check_def)

lemma import_try_resolved:
  "resolved_tasks data = Some ts \<Longrightarrow> \<exists>ds. import_try data st = import_check data ts ds st"
  by (cases data) (auto simp: import_try_def split: option.splits json.splits)

lemma import_try_unresolved:
  "resolved_tasks data = None \<Longrightarrow>
   (\<exists>e. import_try data st = Inl e)
   \<or> import_try data st = Inr (showAlert T_import_failed M_format_unrecognized st)"
  by (cases data) (auto simp: import_try_def split: option.splits json.splits)

lemma import_try_empty_array:
  "import_try (JArr []) st = Inr (showAlert T_import_failed M_no_valid_task_data st)"
  by (simp add: import_try_def import_check_def tasks_given_empty_def)

lemma handleImportConfirm_Inl:
  "trim (importText st) \<noteq> [] \<Longrightarrow> parse (importText st) = Inr data \<Longrightarrow> import_try data st = Inl e \<Longrightarrow>
   handleImportConfirm parse st = showAlert T_import_failed M_json_format_error st"
  by (simp add: handleImportConfirm_def)

lemma handleImportConfirm_Inr:
  "trim (importText st) \<noteq> [] \<Longrightarrow> parse (importText st) = Inr data \<Longrightarrow> import_try data st = Inr st' \<Longrightarrow>
   handleImportConfirm parse st = st'"
  by (simp add: handleImportConfirm_def)

lemma import_failure_alert:
  assumes "trim (importText st) \<noteq> []"
    and "(\<exists>e. parse (importText st) = Inl e)
       \<or> (\<exists>data. parse (importText st) = Inr data \<and> resolved_tasks data = None)
       \<or> (\<exists>data ts t. parse (importText st) = Inr data \<and> resolved_tasks data = Some ts
              \<and> t \<in> set ts \<and> task_has_fields t \<noteq> Inr True)
       \<or> parse (importText st) = Inr (JArr [])"
  shows "\<exists>m. handleImportConfirm parse st = showAlert T_import_failed m st"
  using assms(2)
proof (elim disjE exE conjE)
  fix e assume "parse (importText st) = Inl e"
  then show ?thesis using assms(1) by (auto simp: handleImportConfirm_def)
next
  fix data assume p: "parse (importText st) = Inr data" and "resolved_tasks data = None"
  from import_try_unresolved[OF this(2), of st] show ?thesis
    using handleImportConfirm_Inl[where parse = parse, OF assms(1) p]
      handleImportConfirm_Inr[where parse = parse, OF assms(1) p] by metis
next
  fix data ts t
  assume p: "parse (importText st) = Inr data" and r: "resolved_tasks data = Some ts"
    and t: "t \<in> set ts" "task_has_fields t \<noteq> Inr True"
  from import_try_resolved[OF r, of st] obtain ds
    where "import_try data st = import_check data ts ds st" by blast
  moreover have "ts \<noteq> []" using t(1) by auto
  ultimately have "import_try data st = import_validate ts ds st"
    by (simp add: import_check_nonempty)
  with import_validate_invalid[OF t, of ds st] show ?thesis
    using handleImportConfirm_Inl[where parse = parse, OF assms(1) p]
      handleImportConfirm_Inr[where parse = parse, OF assms(1) p] by metis
next
  assume "parse (importText st) = Inr (JArr [])"
  then show ?thesis
    using assms(1) by (auto simp: handleImportConfirm_def import_try_empty_array)
qed

text \<open>
  C4. When a non-blank import text does not parse, or parses to a value that resolves to
  no task sequence, or resolves to a sequence with an element that fails the field check,
  or parses to the bare empty array, the handler only shows the import-failed alert: the
  task list and the registry are the same after the handler, and after the alert is
  confirmed or cancelled.
\<close>

theorem import_failure_changes_nothing:
  assumes "trim (importText st) \<noteq> []"
    and "(\<exists>e. parse (importText st) = Inl e)
       \<or> (\<exists>data. parse (importText st) = Inr data \<and> resolved_tasks data = None)
       \<or> (\<exists>data ts t. parse (importText st) = Inr data \<and> resolved_tasks data = Some ts
              \<and> t \<in> set ts \<and> task_has_fields t \<noteq> Inr True)
       \<or> parse (importText st) = Inr (JArr [])"
  shows "(\<exists>m. handleImportConfirm parse st = showAlert T_import_failed m st)
       \<and> tasks (handleImportConfirm parse st) = tasks st
       \<and> devices (handleImportConfirm parse st) = devices st
       \<and> tasks (modal_confirm (handleImportConfirm parse st)) = tasks st
       \<and> devices (modal_confirm (handleImportConfirm parse st)) = devices st
       \<and> tasks (modal_cancel (handleImportConfirm parse st)) = tasks st
       \<and> devices (modal_cancel (handleImportConfirm parse st)) = devices st"
proof -
  from import_failure_alert[where parse = parse, OF assms] obtain m
    where m: "handleImportConfirm parse st = showAlert T_import_failed m st" by blast
  show ?thesis
    unfolding m by (auto simp: modal_confirm_showAlert modal_cancel_def)
qed


lemma import_try_envelope:
  assumes "map_of kvs ''tasks'' = Some (JArr ts)" "\<forall>t\<in>set ts. task_has_fields t = Inr True"
  shows "import_try (JObj kvs) st
    = Inr (showConfirm T_restore_data M_confirm_restore
             (RestoreData ts (case map_of kvs ''devices'' of Some (JArr ds) \<Rightarrow> Some ds | _ \<Rightarrow> None)) st)"
proof -
  have c: "import_check (JObj kvs) ts ds st = import_validate ts ds st" for ds
    using assms(1) by (simp add: import_check_def tasks_given_empty_def)
  show ?thesis
    using assms(1) import_validate_valid[OF assms(2)]
    by (simp add: import_try_def c split: option.splits json.splits)
qed

text \<open>
  C2 (amended). A text that parses to the bare empty array is rejected with the alert
  "no valid task data", and nothing changes. A text that parses to an object whose
  \<open>tasks\<close> field is the empty array asks for confirmation, and on confirmation the task
  list is empty.
\<close>

theorem import_empty_array_rejected:
  "(trim (importText st) \<noteq> [] \<and> parse (importText st) = Inr (JArr []) \<longrightarrow>
      handleImportConfirm parse st = showAlert T_import_failed M_no_valid_task_data st
      \<and> tasks (modal_confirm (handleImportConfirm parse st)) = tasks st
      \<and> devices (modal_confirm (handleImportConfirm parse st)) = devices st)
   \<and> (trim (importText st) \<noteq> [] \<and> parse (importText st) = Inr (JObj kvs)
        \<and> map_of kvs ''tasks'' = Some (JArr []) \<longrightarrow>
      type (modalState (handleImportConfirm parse st)) = Confirm
      \<and> tasks (handleImportConfirm parse st) = tasks st
      \<and> tasks (modal_confirm (handleImportConfirm parse st)) = [])"
proof (intro conjI impI)
  assume a: "trim (importText st) \<noteq> [] \<and> parse (importText st) = Inr (JArr [])"
  then have r: "handleImportConfirm parse st = showAlert T_import_failed M_no_valid_task_data st"
    by (simp add: handleImportConfirm_def import_try_empty_array)
  show "handleImportConfirm parse st = showAlert T_import_failed M_no_valid_task_data st"
    by (rule r)
  show "tasks (modal_confirm (handleImportConfirm parse st)) = tasks st"
    by (simp add: r modal_confirm_showAlert)
  show "devices (modal_confirm (handleImportConfirm parse st)) = devices st"
    by (simp add: r modal_confirm_showAlert)
next
  assume a: "trim (importText st) \<noteq> [] \<and> parse (importText st) = Inr (JObj kvs)
        \<and> map_of kvs ''tasks'' = Some (JArr [])"
  then have r: "handleImportConfirm parse st
      = showConfirm T_restore_data M_confirm_restore
             (RestoreData [] (case map_of kvs ''devices'' of Some (JArr ds) \<Rightarrow> Some ds | _ \<Rightarrow> None)) st"
    by (simp add: handleImportConfirm_def import_try_envelope)
  show "type (modalState (handleImportConfirm parse st)) = Confirm"
    by (simp add: r showConfirm_def)
  show "tasks (handleImportConfirm parse st) = tasks st"
    by (simp add: r)
  show "tasks (modal_confirm (handleImportConfirm parse st)) = []"
    by (simp add: r modal_confirm_showConfirm split: option.splits json.splits)
qed

lemma sample_parse_rows:
  "sample_parse text_empty_array = Inr (JArr [])"
  "sample_parse text_empty_tasks = Inr (JObj [(''tasks'', JArr [])])"
  "sample_parse text_not_json = Inl SyntaxError"
  "sample_parse text_foo = Inr (JObj [(''foo'', JNum (Finite 1))])"
  "sample_parse text_empty_id = Inr (JArr [JObj [(''id'', JStr []), (''name'', JStr ''x''),
                              (''checkInTime'', JStr ''09:00'')]])"
  "sample_parse text_odd_devices = Inr (JObj [(''tasks'', JArr [JObj [(''id'', JStr ''1''), (''name'', JStr ''x''),
                                               (''checkInTime'', JStr ''09:00'')]]),
                        (''devices'', JArr [JNum (Finite 5), JStr [], JStr ''a'', JStr ''a''])])"
  "sample_parse sample_backup_text = Inr (JObj [(''tasks'', JArr [sample_task ''A'']), (''devices'', JArr [JStr ''PC'']),
                        (''version'', JNum (Finite 1))])"
  "sample_parse text_huge_createdAt = Inr (JArr [huge_task])"
  "sample_parse null_backup_text
     = Inr (JObj [(''tasks'', JArr [JObj [(''id'', JStr ''1''), (''name'', JStr ''x''),
                                          (''checkInTime'', JStr ''09:00''),
                                          (''createdAt'', JNull)]]),
                  (''devices'', JArr [JStr ''PC'']), (''version'', JNum (Finite 1))])"
  by (simp_all add: sample_parse_def sample_backup_text_def null_backup_text_def lines_def
      text_empty_array_def text_empty_tasks_def text_not_json_def text_foo_def text_empty_id_def
      text_odd_devices_def text_huge_createdAt_def)

lemma sample_texts_nonblank:
  "trim text_empty_array \<noteq> []" "trim text_empty_tasks \<noteq> []" "trim text_not_json \<noteq> []"
  "trim text_foo \<noteq> []" "trim text_empty_id \<noteq> []" "trim text_odd_devices \<noteq> []"
  "trim sample_backup_text \<noteq> []" "trim text_huge_createdAt \<noteq> []"
  "trim null_backup_text \<noteq> []"
  by (simp_all add: trim_eval sample_backup_text_def null_backup_text_def lines_def
      text_empty_array_def text_empty_tasks_def text_not_json_def text_foo_def text_empty_id_def
      text_odd_devices_def text_huge_createdAt_def)

lemma importing_simps:
  "importText (importing text) = text" "tasks (importing text) = [sample_task ''A'']"
  "devices (importing text) = [JStr ''PC'']"
  by (simp_all add: importing_def one_task_def initial_state_def)

text \<open>
  C2, as stated, fails: importing \<open>[]\<close> into a state with one task leaves that task in
  place, while importing an envelope with an empty \<open>tasks\<close> array empties the list.
\<close>

theorem import_empty_array_leaves_tasks:
  "sample_parse text_empty_array = Inr (JArr [])
   \<and> tasks (modal_confirm (handleImportConfirm sample_parse (importing text_empty_array)))
       = [sample_task ''A'']
   \<and> tasks (modal_confirm (handleImportConfirm sample_parse (importing text_empty_array))) \<noteq> []
   \<and> tasks (modal_confirm (handleImportConfirm sample_parse (importing text_empty_tasks))) = []"
  by (simp add: sample_parse_rows handleImportConfirm_def importing_simps sample_texts_nonblank
      import_try_empty_array import_try_envelope modal_confirm_showAlert modal_confirm_showConfirm)

theorem import_empty_array_rejected_witness:
  "handleImportConfirm sample_parse (importing text_empty_array)
     = showAlert T_import_failed M_no_valid_task_data (importing text_empty_array)
   \<and> tasks (modal_confirm (handleImportConfirm sample_parse (importing text_empty_array)))
       = [sample_task ''A'']
   \<and> type (modalState (handleImportConfirm sample_parse (importing text_empty_tasks))) = Confirm
   \<and> tasks (modal_confirm (handleImportConfirm sample_parse (importing text_empty_tasks))) = []"
  using import_empty_array_rejected [of "importing text_empty_array" sample_parse "[]"]
    import_empty_array_rejected [of "importing text_empty_tasks" sample_parse "[(''tasks'', JArr [])]"]
  by (simp add: sample_parse_rows importing_simps sample_texts_nonblank modal_confirm_showAlert)

theorem import_failure_changes_nothing_witness:
  "tasks (modal_confirm (handleImportConfirm sample_parse (importing text_not_json))) = [sample_task ''A'']
   \<and> devices (modal_confirm (handleImportConfirm sample_parse (importing text_not_json))) = [JStr ''PC'']
   \<and> tasks (modal_confirm (handleImportConfirm sample_parse (importing text_foo))) = [sample_task ''A'']
   \<and> devices (modal_confirm (handleImportConfirm sample_parse (importing text_foo))) = [JStr ''PC'']
   \<and> tasks (modal_confirm (handleImportConfirm sample_parse (importing text_empty_id))) = [sample_task ''A'']
   \<and> devices (modal_confirm (handleImportConfirm sample_parse (importing text_empty_id))) = [JStr ''PC'']
   \<and> handleImportConfirm sample_parse (importing text_not_json)
       = showAlert T_import_failed M_json_format_error (importing text_not_json)
   \<and> handleImportConfirm sample_parse (importing text_foo)
       = showAlert T_import_failed M_format_unrecognized (importing text_foo)
   \<and> handleImportConfirm sample_parse (importing text_empty_id)
       = showAlert T_import_failed M_task_data_malformed (importing text_empty_id)"
proof -
  have 1: "tasks (modal_confirm (handleImportConfirm sample_parse (importing text_not_json))) = [sample_task ''A'']
   \<and> devices (modal_confirm (handleImportConfirm sample_parse (importing text_not_json))) = [JStr ''PC'']"
    using import_failure_changes_nothing [of "importing text_not_json" sample_parse]
    by (simp add: sample_parse_rows importing_simps sample_texts_nonblank)
  have 2: "tasks (modal_confirm (handleImportConfirm sample_parse (importing text_foo))) = [sample_task ''A'']
   \<and> devices (modal_confirm (handleImportConfirm sample_parse (importing text_foo))) = [JStr ''PC'']"
    using import_failure_changes_nothing [of "importing text_foo" sample_parse]
    by (simp add: sample_parse_rows importing_simps sample_texts_nonblank)
  have 3: "tasks (modal_confirm (handleImportConfirm sample_parse (importing text_empty_id))) = [sample_task ''A'']
   \<and> devices (modal_confirm (handleImportConfirm sample_parse (importing text_empty_id))) = [JStr ''PC'']"
    using import_failure_changes_nothing [of "importing text_empty_id" sample_parse]
    by (simp add: sample_parse_rows importing_simps sample_texts_nonblank task_has_fields_def)
  have 4: "handleImportConfirm sample_parse (importing text_not_json)
       = showAlert T_import_failed M_json_format_error (importing text_not_json)"
    "handleImportConfirm sample_parse (importing text_foo)
       = showAlert T_import_failed M_format_unrecognized (importing text_foo)"
    "handleImportConfirm sample_parse (importing text_empty_id)
       = showAlert T_import_failed M_task_data_malformed (importing text_empty_id)"
    by (simp_all add: handleImportConfirm_def sample_parse_rows importing_simps sample_texts_nonblank
        import_try_def import_check_def import_validate_def task_has_fields_def)
  show ?thesis using 1 2 3 4 by simp
qed


lemma all_finite_roundtrip: "all_finite v \<Longrightarrow> JSON_roundtrip v = v"
  by (induction v) (auto simp: list_all_iff split: number.splits intro!: map_idI)

lemma map_roundtrip_finite: "\<forall>v\<in>set xs. all_finite v \<Longrightarrow> map JSON_roundtrip xs = xs"
  by (simp add: all_finite_roundtrip map_idI)

lemma roundtrip_backupData:
  "JSON_roundtrip (backupData st)
     = JObj [(''tasks'', JArr (map JSON_roundtrip (tasks st))),
             (''devices'', JArr (map JSON_roundtrip (devices st))),
             (''version'', JNum (Finite 1))]"
  by (simp add: backupData_def)

text \<open>
  C3 (amended). \<open>parse\<close> and \<open>stringify\<close> stand for \<open>JSON.parse\<close> and
  \<open>JSON.stringify(x, null, 2)\<close>. When the exported text is not blank and \<open>parse\<close> reads
  it as ECMAScript says (\<open>JSON_roundtrip\<close> of the exported value), then importing that
  text in any state and confirming gives the exported lists with every number that is not
  finite replaced by \<open>null\<close>, as long as the tasks still pass the field check; when the
  tasks pass the field check and no stored value holds such a number, it gives the task
  list and the registry of the exporting state, element by element.
\<close>

theorem export_import_round_trip:
  assumes "parse (stringify (backupData st)) = Inr (JSON_roundtrip (backupData st))"
    and "trim (stringify (backupData st)) \<noteq> []"
  shows "((\<forall>t\<in>set (tasks st). task_has_fields (JSON_roundtrip t) = Inr True) \<longrightarrow>
            tasks (modal_confirm (handleImportConfirm parse
                     (handleFileChange st2 (handleExport stringify st))))
              = map JSON_roundtrip (tasks st)
          \<and> devices (modal_confirm (handleImportConfirm parse
                     (handleFileChange st2 (handleExport stringify st))))
              = map JSON_roundtrip (devices st))
       \<and> ((\<forall>t\<in>set (tasks st). task_has_fields t = Inr True)
            \<and> (\<forall>v\<in>set (tasks st) \<union> set (devices st). all_finite v) \<longrightarrow>
            tasks (modal_confirm (handleImportConfirm parse
                     (handleFileChange st2 (handleExport stringify st))))
              = tasks st
          \<and> devices (modal_confirm (handleImportConfirm parse
                     (handleFileChange st2 (handleExport stringify st))))
              = devices st)"
proof -
  let ?st = "handleFileChange st2 (handleExport stringify st)"
  have t: "importText ?st = stringify (backupData st)"
    by (simp add: handleFileChange_def handleExport_def)
  have general: "tasks (modal_confirm (handleImportConfirm parse ?st)) = map JSON_roundtrip (tasks st)
      \<and> devices (modal_confirm (handleImportConfirm parse ?st)) = map JSON_roundtrip (devices st)"
    if v: "\<forall>t\<in>set (tasks st). task_has_fields (JSON_roundtrip t) = Inr True"
  proof -
    have "import_try (JSON_roundtrip (backupData st)) ?st
        = Inr (showConfirm T_restore_data M_confirm_restore
                 (RestoreData (map JSON_roundtrip (tasks st))
                    (Some (map JSON_roundtrip (devices st)))) ?st)"
      unfolding roundtrip_backupData using v by (subst import_try_envelope) simp_all
    then have "handleImportConfirm parse ?st
        = showConfirm T_restore_data M_confirm_restore
                 (RestoreData (map JSON_roundtrip (tasks st))
                    (Some (map JSON_roundtrip (devices st)))) ?st"
      using assms by (simp add: handleImportConfirm_def t)
    then show ?thesis by (simp add: modal_confirm_showConfirm)
  qed
  have finite: "tasks (modal_confirm (handleImportConfirm parse ?st)) = tasks st
      \<and> devices (modal_confirm (handleImportConfirm parse ?st)) = devices st"
    if v: "\<forall>t\<in>set (tasks st). task_has_fields t = Inr True"
      and f: "\<forall>v\<in>set (tasks st) \<union> set (devices st). all_finite v"
  proof -
    have mt: "map JSON_roundtrip (tasks st) = tasks st"
      using f by (intro map_roundtrip_finite) auto
    have md: "map JSON_roundtrip (devices st) = devices st"
      using f by (intro map_roundtrip_finite) auto
    have "\<forall>t\<in>set (tasks st). task_has_fields (JSON_roundtrip t) = Inr True"
      using v f by (simp add: all_finite_roundtrip)
    from general[OF this] show ?thesis by (simp add: mt md)
  qed
  show ?thesis using general finite by blast
qed

lemma holding_infinity_simps:
  "tasks holding_infinity = [huge_task]" "devices holding_infinity = [JStr ''PC'']"
  by (simp_all add: holding_infinity_def handleImportConfirm_def sample_parse_rows
      sample_texts_nonblank importing_simps import_try_def import_check_def import_validate_def
      task_has_fields_def huge_task_def modal_confirm_showConfirm)

lemma backupData_holding_infinity:
  "backupData holding_infinity
     = JObj [(''tasks'', JArr [huge_task]), (''devices'', JArr [JStr ''PC'']),
             (''version'', JNum (Finite 1))]"
  by (simp add: backupData_def holding_infinity_simps)

text \<open>
  C3, as stated, fails: a task imported with \<open>createdAt\<close> \<open>1e999\<close> is stored with
  \<open>Infinity\<close> and passes the field check; its export writes \<open>null\<close>, and importing the
  export gives a task that is not the stored one.
\<close>

theorem export_loses_infinity:
  "tasks holding_infinity = [huge_task]
   \<and> task_has_fields huge_task = Inr True
   \<and> handleExport sample_stringify holding_infinity = null_backup_text
   \<and> tasks (modal_confirm (handleImportConfirm sample_parse
        (handleFileChange holding_infinity (handleExport sample_stringify holding_infinity))))
       = [JObj [(''id'', JStr ''1''), (''name'', JStr ''x''), (''checkInTime'', JStr ''09:00''),
                (''createdAt'', JNull)]]
   \<and> tasks (modal_confirm (handleImportConfirm sample_parse
        (handleFileChange holding_infinity (handleExport sample_stringify holding_infinity))))
       \<noteq> tasks holding_infinity"
proof -
  have e: "handleExport sample_stringify holding_infinity = null_backup_text"
    by (simp add: handleExport_def backupData_holding_infinity sample_stringify_def huge_task_def
        sample_task_def)
  have i: "tasks (modal_confirm (handleImportConfirm sample_parse
        (handleFileChange holding_infinity null_backup_text)))
       = [JObj [(''id'', JStr ''1''), (''name'', JStr ''x''), (''checkInTime'', JStr ''09:00''),
                (''createdAt'', JNull)]]"
    by (simp add: handleImportConfirm_def handleFileChange_def sample_parse_rows
        sample_texts_nonblank import_try_def import_check_def import_validate_def
        tasks_given_empty_def task_has_fields_def modal_confirm_showConfirm)
  show ?thesis
    by (simp add: e i holding_infinity_simps) (simp add: huge_task_def task_has_fields_def)
qed

theorem export_import_round_trip_witness:
  "tasks (modal_confirm (handleImportConfirm sample_parse
         (handleFileChange (initial_state [] DEFAULT_DEVICES) (handleExport sample_stringify one_task))))
       = [sample_task ''A'']
   \<and> devices (modal_confirm (handleImportConfirm sample_parse
         (handleFileChange (initial_state [] DEFAULT_DEVICES) (handleExport sample_stringify one_task))))
       = [JStr ''PC'']
   \<and> tasks (modal_confirm (handleImportConfirm sample_parse
        (handleFileChange holding_infinity (handleExport sample_stringify holding_infinity))))
       = map JSON_roundtrip (tasks holding_infinity)"
proof -
  have b: "backupData one_task
      = JObj [(''tasks'', JArr [sample_task ''A'']), (''devices'', JArr [JStr ''PC'']), (''version'', JNum (Finite 1))]"
    by (simp add: backupData_def one_task_def initial_state_def)
  have o: "tasks one_task = [sample_task ''A'']" "devices one_task = [JStr ''PC'']"
    by (simp_all add: one_task_def initial_state_def)
  have s1: "sample_stringify (backupData one_task) = sample_backup_text"
    by (simp add: b sample_stringify_def)
  have s2: "sample_stringify (backupData holding_infinity) = null_backup_text"
    by (simp add: backupData_holding_infinity sample_stringify_def huge_task_def sample_task_def)
  have r1: "JSON_roundtrip (sample_task ''A'') = sample_task ''A''"
    by (simp add: sample_task_def)
  have r2: "JSON_roundtrip huge_task
      = JObj [(''id'', JStr ''1''), (''name'', JStr ''x''), (''checkInTime'', JStr ''09:00''),
                (''createdAt'', JNull)]"
    by (simp add: huge_task_def)
  have f: "all_finite (sample_task ''A'')" "task_has_fields (sample_task ''A'') = Inr True"
    by (simp_all add: sample_task_def task_has_fields_def)
  have w1: "tasks (modal_confirm (handleImportConfirm sample_parse
         (handleFileChange (initial_state [] DEFAULT_DEVICES) (handleExport sample_stringify one_task))))
       = [sample_task ''A'']
   \<and> devices (modal_confirm (handleImportConfirm sample_parse
         (handleFileChange (initial_state [] DEFAULT_DEVICES) (handleExport sample_stringify one_task))))
       = [JStr ''PC'']"
    using export_import_round_trip [of sample_parse sample_stringify one_task
        "initial_state [] DEFAULT_DEVICES"]
    by (simp add: s1 roundtrip_backupData o r1 f sample_parse_rows sample_texts_nonblank)
  have w2: "tasks (modal_confirm (handleImportConfirm sample_parse
        (handleFileChange holding_infinity (handleExport sample_stringify holding_infinity))))
       = map JSON_roundtrip (tasks holding_infinity)"
    using export_import_round_trip [of sample_parse sample_stringify holding_infinity
        holding_infinity]
    by (simp add: s2 roundtrip_backupData holding_infinity_simps r2 sample_parse_rows
        sample_texts_nonblank task_has_fields_def)
  show ?thesis using w1 w2 by simp
qed

text \<open>
  C9. For an imported object whose \<open>tasks\<close> array passes the field check, any array under
  \<open>devices\<close> becomes the registry on confirmation, whatever its elements; before the
  confirmation the registry is untouched.
\<close>

theorem import_adopts_devices_unchecked:
  assumes "trim (importText st) \<noteq> []" and "parse (importText st) = Inr (JObj kvs)"
    and "map_of kvs ''tasks'' = Some (JArr ts)"
    and "\<forall>t\<in>set ts. task_has_fields t = Inr True"
    and "map_of kvs ''devices'' = Some (JArr ds)"
  shows "devices (handleImportConfirm parse st) = devices st
       \<and> devices (modal_confirm (handleImportConfirm parse st)) = ds
       \<and> tasks (modal_confirm (handleImportConfirm parse st)) = ts"
proof -
  have "handleImportConfirm parse st
      = showConfirm T_restore_data M_confirm_restore (RestoreData ts (Some ds)) st"
    using assms(1,2,5) import_try_envelope[OF assms(3,4), of st]
    by (simp add: handleImportConfirm_def)
  then show ?thesis by (simp add: modal_confirm_showConfirm)
qed

theorem import_adopts_devices_unchecked_witness:
  "devices (handleImportConfirm sample_parse (importing text_odd_devices)) = [JStr ''PC'']
   \<and> devices (modal_confirm (handleImportConfirm sample_parse (importing text_odd_devices)))
       = [JNum (Finite 5), JStr [], JStr ''a'', JStr ''a'']
   \<and> tasks (modal_confirm (handleImportConfirm sample_parse (importing text_odd_devices)))
       = [JObj [(''id'', JStr ''1''), (''name'', JStr ''x''), (''checkInTime'', JStr ''09:00'')]]"
  using import_adopts_devices_unchecked [of "importing text_odd_devices" sample_parse
      "[(''tasks'', JArr [JObj [(''id'', JStr ''1''), (''name'', JStr ''x''),
                                               (''checkInTime'', JStr ''09:00'')]]),
                        (''devices'', JArr [JNum (Finite 5), JStr [], JStr ''a'', JStr ''a''])]"
      "[JObj [(''id'', JStr ''1''), (''name'', JStr ''x''), (''checkInTime'', JStr ''09:00'')]]"
      "[JNum (Finite 5), JStr [], JStr ''a'', JStr ''a'']"]
  by (simp add: sample_parse_rows importing_simps sample_texts_nonblank task_has_fields_def)

end
